theory Spec2Isabelle
  imports Main "HOL-Library.Sublist"
begin

section \<open>Errors, panics and outcomes\<close>

text \<open>
  Go error values as the supervisor sees them: the sentinel \<open>context.Canceled\<close>, an
  error that only carries a message (\<open>errors.New\<close>, \<open>fmt.Errorf\<close> without \<open>%w\<close>),
  and an error that carries a message and wraps another one (\<open>fmt.Errorf\<close> with \<open>%w\<close>).
  A nil error is \<open>None\<close> of \<open>err option\<close>.
\<close>

datatype err = Canceled | ErrorString string | WrapError string err

fun Error :: "err \<Rightarrow> string" where
  "Error Canceled = ''context canceled''"
| "Error (ErrorString m) = m"
| "Error (WrapError m e) = m"

text \<open>\<open>errors.Is(err, context.Canceled)\<close>: walks the chain of wrapped errors.\<close>

fun errors_Is_Canceled :: "err \<Rightarrow> bool" where
  "errors_Is_Canceled Canceled = True"
| "errors_Is_Canceled (ErrorString m) = False"
| "errors_Is_Canceled (WrapError m e) = errors_Is_Canceled e"

text \<open>\<open>fmt.Errorf("worker %s exited: %w", name, err)\<close> of \<open>Run\<close>.\<close>

definition Errorf_exited :: "string \<Rightarrow> err \<Rightarrow> err" where
  "Errorf_exited name e = WrapError (''worker '' @ name @ '' exited: '' @ Error e) e"

text \<open>\<open>fmt.Errorf("worker %s: %s", n, err)\<close> of the probe handlers.\<close>

definition Errorf_worker :: "string \<Rightarrow> err \<Rightarrow> err" where
  "Errorf_worker n e = ErrorString (''worker '' @ n @ '': '' @ Error e)"

text \<open>
  The value a panic carries: an \<open>error\<close> (a runtime error is one) or any other value,
  kept as its \<open>%v\<close> rendering.
\<close>

datatype panic_value = PanicError err | PanicValue string

definition nilDereference :: panic_value where
  "nilDereference =
     PanicError (ErrorString ''runtime error: invalid memory address or nil pointer dereference'')"

text \<open>
  How a call ends: it returns, it panics, the process exits (\<open>os.Exit(1)\<close> behind a
  fatal log event, which runs no deferred function), or it never returns.
\<close>

datatype 'a outcome = Returns 'a | Panics panic_value | Exits | Blocks

section \<open>Observable events\<close>

datatype level = DebugLevel | InfoLevel | WarnLevel | ErrorLevel | FatalLevel

datatype field = Str string | Dur int | Err err | Errs "err list"

text \<open>
  What a run of the supervisor does to the outside: log events, the result of a worker's
  init step, the start of a worker's run step, a call of a worker's terminate step (with
  the time it starts and, when it returns, the time and the error it returns), and the
  time at which the bounded wait of the shutdown path ends. Times count from the start of
  \<open>terminateWorkers\<close>. Events of a goroutine are listed where the goroutine is started.
\<close>

datatype event =
    Log level string "(string \<times> field) list"
  | InitStep string "err option"
  | RunStarted string
  | TerminateCall string nat "(nat \<times> err option) option"
  | WaitReturned nat

type_synonym 'a io = "event list \<times> 'a outcome"

definition result :: "'a \<Rightarrow> 'a io" where
  "result a = ([], Returns a)"

definition andThen :: "'a io \<Rightarrow> ('a \<Rightarrow> 'b io) \<Rightarrow> 'b io" where
  "andThen m f =
     (case m of
        (t, Returns a) \<Rightarrow> (case f a of (t', r) \<Rightarrow> (t @ t', r))
      | (t, Panics v) \<Rightarrow> (t, Panics v)
      | (t, Exits) \<Rightarrow> (t, Exits)
      | (t, Blocks) \<Rightarrow> (t, Blocks))"

definition after :: "event list \<Rightarrow> 'a io \<Rightarrow> 'a io" where
  "after t m = (case m of (t', r) \<Rightarrow> (t @ t', r))"

section \<open>The logger\<close>

text \<open>
  \<open>*zerolog.Logger\<close>: a pointer, \<open>None\<close> when nil. Any event constructor
  (\<open>Info()\<close>, \<open>Fatal()\<close>, ...) on a nil logger dereferences it and panics. On a logger,
  an event at fatal level ends the process once its message is written.
\<close>

datatype zerolog_Logger = zerolog_Logger string

definition newLogger :: "string \<Rightarrow> zerolog_Logger option" where
  "newLogger name = Some (zerolog_Logger name)"

definition emit :: "zerolog_Logger option \<Rightarrow> level \<Rightarrow> (string \<times> field) list \<Rightarrow> string \<Rightarrow> unit io" where
  "emit l lvl fs m =
     (case l of
        None \<Rightarrow> ([], Panics nilDereference)
      | Some _ \<Rightarrow> ([Log lvl m fs], if lvl = FatalLevel then Exits else Returns ()))"

section \<open>Workers\<close>

text \<open>
  A worker is opaque to the supervisor beyond its methods. \<open>Worker_Init\<close> gives the
  result of the k-th call of \<open>Init\<close> (a retry calls it again), \<open>Worker_Run\<close> how \<open>Run\<close>
  ends, \<open>Worker_Terminate\<close> how long \<open>Terminate\<close> takes and what it returns, or that it
  never returns. \<open>Aliver_Alive\<close> and \<open>Healther_Healthy\<close> are \<open>None\<close> when the worker does
  not implement the interface, and the result of the call otherwise.
\<close>

datatype run_result = RunReturns "err option" | RunPanics panic_value | RunBlocks

datatype terminate_result = TerminateReturns nat "err option" | TerminateBlocks

record Worker =
  Worker_Init :: "nat \<Rightarrow> err option"
  Worker_Run :: run_result
  Worker_Terminate :: terminate_result
  Aliver_Alive :: "err option option"
  Healther_Healthy :: "err option option"

section \<open>The HTTP router\<close>

datatype handler =
    pprof_Index | pprof_Cmdline | pprof_Profile | pprof_Symbol | pprof_Trace
  | pprof_Handler string | liveProbe | readyProbe | otherHandler string

type_synonym ServeMux = "(string \<times> handler) list"

text \<open>
  \<open>mux.Handle\<close> and \<open>mux.HandleFunc\<close>: a nil mux is dereferenced, and a pattern that
  is already registered panics.
\<close>

definition Handle :: "ServeMux option \<Rightarrow> string \<Rightarrow> handler \<Rightarrow> ServeMux option outcome" where
  "Handle mux pattern h =
     (case mux of
        None \<Rightarrow> Panics nilDereference
      | Some m \<Rightarrow>
          if map_of m pattern \<noteq> None
          then Panics (PanicValue (''http: multiple registrations for '' @ pattern))
          else Returns (Some (m @ [(pattern, h)])))"

fun HandleAll :: "ServeMux option \<Rightarrow> (string \<times> handler) list \<Rightarrow> ServeMux option outcome" where
  "HandleAll mux [] = Returns mux"
| "HandleAll mux ((p, h) # rest) =
     (case Handle mux p h of
        Returns mux' \<Rightarrow> HandleAll mux' rest
      | Panics v \<Rightarrow> Panics v
      | Exits \<Rightarrow> Exits
      | Blocks \<Rightarrow> Blocks)"

section \<open>The supervisor\<close>

datatype retry_Option = retry_Option string

text \<open>
  The fields of \<open>SVC\<close> that the code reads or writes. Durations are nanoseconds.
  The signal channel is the environment's; \<open>zapOpts\<close>, \<open>stdLogger\<close>, \<open>atom\<close> and
  \<open>loggerRedirectUndo\<close> are never touched.
\<close>

record SVC =
  Name :: string
  Version :: string
  Router :: "ServeMux option"
  TerminationGracePeriod :: int
  TerminationWaitPeriod :: int
  logger :: "zerolog_Logger option"
  workers :: "string \<rightharpoonup> Worker"
  workerInitRetryOpts :: "string \<rightharpoonup> retry_Option list"
  workersAdded :: "string list"
  workersInitialized :: "string list"

definition Second :: int where
  "Second = 1000000000"

definition defaultTerminationGracePeriod :: int where
  "defaultTerminationGracePeriod = 15 * Second"

definition defaultTerminationWaitPeriod :: int where
  "defaultTerminationWaitPeriod = 0 * Second"

subsection \<open>Options and the constructor\<close>

datatype Option =
    WithTerminationWaitPeriod int
  | WithTerminationGracePeriod int
  | WithRouter "ServeMux option"
  | WithPProfHandlers
  | WithHealthz

definition pprofRoutes :: "(string \<times> handler) list" where
  "pprofRoutes =
     [(''/debug/pprof/'', pprof_Index),
      (''/debug/pprof/cmdline'', pprof_Cmdline),
      (''/debug/pprof/profile'', pprof_Profile),
      (''/debug/pprof/symbol'', pprof_Symbol),
      (''/debug/pprof/trace'', pprof_Trace),
      (''/debug/pprof/allocs'', pprof_Handler ''allocs''),
      (''/debug/pprof/block'', pprof_Handler ''block''),
      (''/debug/pprof/goroutine'', pprof_Handler ''goroutine''),
      (''/debug/pprof/heap'', pprof_Handler ''heap''),
      (''/debug/pprof/mutex'', pprof_Handler ''mutex''),
      (''/debug/pprof/threadcreate'', pprof_Handler ''threadcreate'')]"

definition healthzRoutes :: "(string \<times> handler) list" where
  "healthzRoutes = [(''/live'', liveProbe), (''/ready'', readyProbe)]"

text \<open>An option applied to the supervisor: the supervisor it leaves and the error it returns.\<close>

fun applyOption :: "Option \<Rightarrow> SVC \<Rightarrow> (SVC \<times> err option) outcome" where
  "applyOption (WithTerminationWaitPeriod d) s = Returns (s\<lparr>TerminationWaitPeriod := d\<rparr>, None)"
| "applyOption (WithTerminationGracePeriod d) s = Returns (s\<lparr>TerminationGracePeriod := d\<rparr>, None)"
| "applyOption (WithRouter router) s = Returns (s\<lparr>Router := router\<rparr>, None)"
| "applyOption WithPProfHandlers s =
     (case HandleAll (Router s) pprofRoutes of
        Returns mux \<Rightarrow> Returns (s\<lparr>Router := mux\<rparr>, None)
      | Panics v \<Rightarrow> Panics v
      | Exits \<Rightarrow> Exits
      | Blocks \<Rightarrow> Blocks)"
| "applyOption WithHealthz s =
     (case HandleAll (Router s) healthzRoutes of
        Returns mux \<Rightarrow> Returns (s\<lparr>Router := mux\<rparr>, None)
      | Panics v \<Rightarrow> Panics v
      | Exits \<Rightarrow> Exits
      | Blocks \<Rightarrow> Blocks)"

fun applyOptions :: "Option list \<Rightarrow> SVC \<Rightarrow> (SVC option \<times> err option) outcome" where
  "applyOptions [] s = Returns (Some s, None)"
| "applyOptions (opt # opts) s =
     (case applyOption opt s of
        Returns (s', Some e) \<Rightarrow> Returns (None, Some e)
      | Returns (s', None) \<Rightarrow> applyOptions opts s'
      | Panics v \<Rightarrow> Panics v
      | Exits \<Rightarrow> Exits
      | Blocks \<Rightarrow> Blocks)"

definition New :: "string \<Rightarrow> string \<Rightarrow> Option list \<Rightarrow> (SVC option \<times> err option) outcome" where
  "New name version opts =
     applyOptions opts
       \<lparr>Name = name, Version = version, Router = Some [],
        TerminationGracePeriod = defaultTerminationGracePeriod,
        TerminationWaitPeriod = defaultTerminationWaitPeriod,
        logger = None,
        workers = Map.empty, workerInitRetryOpts = Map.empty,
        workersAdded = [], workersInitialized = []\<rparr>"

definition Logger :: "SVC \<Rightarrow> zerolog_Logger option" where
  "Logger s = logger s"

subsection \<open>Registration\<close>

definition AddWorker :: "SVC \<Rightarrow> string \<Rightarrow> Worker \<Rightarrow> SVC io" where
  "AddWorker s name w =
     andThen
       (if workers s name \<noteq> None
        then emit (logger s) FatalLevel [(''name'', Str name)] ''Duplicate worker names!''
        else result ())
     (\<lambda>_. andThen
       (if Healther_Healthy w = None
        then emit (logger s) InfoLevel [(''worker'', Str name)]
               ''Worker does not implement Healther interface''
        else result ())
     (\<lambda>_. andThen
       (if Aliver_Alive w = None
        then emit (logger s) InfoLevel [(''worker'', Str name)]
               ''Worker does not implement Aliver interface''
        else result ())
     (\<lambda>_. result (s\<lparr>workersAdded := workersAdded s @ [name],
                      workers := (workers s)(name \<mapsto> w)\<rparr>))))"

definition AddWorkerWithInitRetry :: "SVC \<Rightarrow> string \<Rightarrow> Worker \<Rightarrow> retry_Option list \<Rightarrow> SVC io" where
  "AddWorkerWithInitRetry s name w retryOpts =
     andThen (AddWorker s name w)
       (\<lambda>s'. result (s'\<lparr>workerInitRetryOpts := (workerInitRetryOpts s')(name \<mapsto> retryOpts)\<rparr>))"

text \<open>
  A caller's sequence of registrations: each call runs only if the one before returned.
\<close>

datatype registration = Register string Worker | RegisterWithRetry string Worker "retry_Option list"

fun registeredName :: "registration \<Rightarrow> string" where
  "registeredName (Register name w) = name"
| "registeredName (RegisterWithRetry name w ro) = name"

fun register :: "SVC \<Rightarrow> registration \<Rightarrow> SVC io" where
  "register s (Register name w) = AddWorker s name w"
| "register s (RegisterWithRetry name w ro) = AddWorkerWithInitRetry s name w ro"

fun registerAll :: "SVC \<Rightarrow> registration list \<Rightarrow> SVC io" where
  "registerAll s [] = result s"
| "registerAll s (r # rs) =
     (case register s r of
        (t, Returns s') \<Rightarrow> after t (registerAll s' rs)
      | (t, Panics v) \<Rightarrow> (t, Panics v)
      | (t, Exits) \<Rightarrow> (t, Exits)
      | (t, Blocks) \<Rightarrow> (t, Blocks))"

section \<open>The probe handlers\<close>

text \<open>
  \<open>http.ResponseWriter\<close> as a handler uses it: \<open>header\<close> is the map \<open>w.Header()\<close>
  returns, \<open>WriteHeader\<close> fixes the status code and the headers that are sent, a first
  \<open>Write\<close> without it sends status 200, and a header set after that is not sent. A
  handler that writes nothing is answered with status 200 (\<open>finish\<close>). The content
  type the server would sniff for a body sent without one is not part of the model.
\<close>

record ResponseWriter =
  header :: "(string \<times> string) list"
  wroteHeader :: bool
  statusCode :: nat
  sentHeader :: "(string \<times> string) list"
  body :: string

definition emptyResponse :: ResponseWriter where
  "emptyResponse =
     \<lparr>header = [], wroteHeader = False, statusCode = 200, sentHeader = [], body = []\<rparr>"

definition Header_Set :: "string \<Rightarrow> string \<Rightarrow> ResponseWriter \<Rightarrow> ResponseWriter" where
  "Header_Set k v w = w\<lparr>header := (k, v) # filter (\<lambda>p. fst p \<noteq> k) (header w)\<rparr>"

definition Header_Del :: "string \<Rightarrow> ResponseWriter \<Rightarrow> ResponseWriter" where
  "Header_Del k w = w\<lparr>header := filter (\<lambda>p. fst p \<noteq> k) (header w)\<rparr>"

definition WriteHeader :: "nat \<Rightarrow> ResponseWriter \<Rightarrow> ResponseWriter" where
  "WriteHeader code w =
     (if wroteHeader w then w
      else w\<lparr>wroteHeader := True, statusCode := code, sentHeader := header w\<rparr>)"

definition Write :: "string \<Rightarrow> ResponseWriter \<Rightarrow> ResponseWriter" where
  "Write b w = (let w' = WriteHeader 200 w in w'\<lparr>body := body w' @ b\<rparr>)"

definition finish :: "ResponseWriter \<Rightarrow> ResponseWriter" where
  "finish w = WriteHeader 200 w"

definition StatusServiceUnavailable :: nat where
  "StatusServiceUnavailable = 503"

definition StatusInternalServerError :: nat where
  "StatusInternalServerError = 500"

text \<open>\<open>http.Error(w, msg, code)\<close>.\<close>

definition http_Error :: "ResponseWriter \<Rightarrow> string \<Rightarrow> nat \<Rightarrow> ResponseWriter" where
  "http_Error w msg code =
     Write (msg @ [CHR 0x0A])
       (WriteHeader code
         (Header_Set ''X-Content-Type-Options'' ''nosniff''
           (Header_Set ''Content-Type'' ''text/plain; charset=utf-8''
             (Header_Del ''Content-Length'' w))))"

text \<open>
  \<open>json.Marshal(map[string]interface{}{"errors": errs})\<close> for a slice of errors: an
  error value built by \<open>errors.New\<close> or \<open>fmt.Errorf\<close> has no exported field and is
  encoded as \<open>{}\<close>; the call returns no error.
\<close>

fun joinComma :: "string list \<Rightarrow> string" where
  "joinComma [] = []"
| "joinComma [x] = x"
| "joinComma (x # y # ys) = x @ '','' @ joinComma (y # ys)"

definition json_Marshal_errors :: "err list \<Rightarrow> string \<times> err option" where
  "json_Marshal_errors errs =
     (''{\"errors\":['' @ joinComma (map (\<lambda>e. ''{}'') errs) @ '']}'', None)"

text \<open>
  The loops of the two handlers over \<open>s.workers\<close>. A Go map is ranged over in an order
  the runtime picks: \<open>ks\<close> is that order, the keys of the map as the loop meets them.
\<close>

fun liveErrs :: "(string \<rightharpoonup> Worker) \<Rightarrow> string list \<Rightarrow> err list \<Rightarrow> err list" where
  "liveErrs ws [] errs = errs"
| "liveErrs ws (n # ns) errs =
     (case ws n of
        None \<Rightarrow> liveErrs ws ns errs
      | Some w \<Rightarrow>
          (case Aliver_Alive w of
             None \<Rightarrow> liveErrs ws ns errs
           | Some None \<Rightarrow> liveErrs ws ns errs
           | Some (Some e) \<Rightarrow> liveErrs ws ns (errs @ [Errorf_worker n e])))"

fun readyErrs :: "(string \<rightharpoonup> Worker) \<Rightarrow> string list \<Rightarrow> err list \<Rightarrow> err list" where
  "readyErrs ws [] errs = errs"
| "readyErrs ws (n # ns) errs =
     (case ws n of
        None \<Rightarrow> readyErrs ws ns errs
      | Some w \<Rightarrow>
          (case Healther_Healthy w of
             None \<Rightarrow> readyErrs ws ns errs
           | Some None \<Rightarrow> readyErrs ws ns errs
           | Some (Some e) \<Rightarrow> readyErrs ws ns (errs @ [Errorf_worker n e])))"

text \<open>The handler of \<open>/live\<close>.\<close>

definition liveHandler :: "SVC \<Rightarrow> string list \<Rightarrow> ResponseWriter \<Rightarrow> ResponseWriter io" where
  "liveHandler s ks w =
     (let errs = liveErrs (workers s) ks [] in
      if length errs = 0
      then result (Write ''{\"status\": \"Still Alive!\"}''
                    (Header_Set ''Content-Type'' ''application/json'' w))
      else andThen
        (emit (logger s) WarnLevel [(''errors'', Errs errs)] ''liveliness probe failed'')
        (\<lambda>_. case json_Marshal_errors errs of
            (b, Some e) \<Rightarrow> result (http_Error w (Error e) StatusInternalServerError)
          | (b, None) \<Rightarrow>
              result (Write b
                (WriteHeader StatusServiceUnavailable
                  (Header_Set ''Content-Type'' ''application/json'' w)))))"

text \<open>The handler of \<open>/ready\<close>.\<close>

definition readyHandler :: "SVC \<Rightarrow> string list \<Rightarrow> ResponseWriter \<Rightarrow> ResponseWriter io" where
  "readyHandler s ks w =
     (let errs = readyErrs (workers s) ks [] in
      if length errs > 0
      then andThen
        (emit (logger s) WarnLevel [(''errors'', Errs errs)] ''Ready check failed'')
        (\<lambda>_. case json_Marshal_errors errs of
            (b, Some e) \<Rightarrow> result (http_Error w (Error e) StatusInternalServerError)
          | (b, None) \<Rightarrow>
              result (Write b
                (Header_Set ''Content-Type'' ''application/json''
                  (WriteHeader StatusServiceUnavailable w))))
      else result w)"

text \<open>
  A request served: the handler runs on a fresh response, and a handler that returns is
  answered with what it wrote.
\<close>

definition serveLive :: "SVC \<Rightarrow> string list \<Rightarrow> ResponseWriter io" where
  "serveLive s ks = andThen (liveHandler s ks emptyResponse) (\<lambda>w. result (finish w))"

definition serveReady :: "SVC \<Rightarrow> string list \<Rightarrow> ResponseWriter io" where
  "serveReady s ks = andThen (readyHandler s ks emptyResponse) (\<lambda>w. result (finish w))"

section \<open>Run\<close>

text \<open>
  \<open>retry.Do\<close> of the retry library is a parameter of the model: it is given the
  function it retries (the results of the successive calls of \<open>Init\<close>) and the options,
  and returns nil or the error it gives up with.
\<close>

type_synonym retry_Do = "(nat \<Rightarrow> err option) \<Rightarrow> retry_Option list \<Rightarrow> err option"

subsection \<open>Initialisation\<close>

text \<open>
  One round of the initialisation loop, up to and including the error log of a failed
  init: the value of \<open>err\<close> the loop tests. A name without a worker in the map yields a
  nil interface, and calling \<open>Init\<close> on it panics.
\<close>

definition initStep :: "retry_Do \<Rightarrow> SVC \<Rightarrow> string \<Rightarrow> (err option) io" where
  "initStep rdo s name =
     andThen (emit (logger s) DebugLevel [(''worker'', Str name)] ''Initializing worker'')
     (\<lambda>_. case workers s name of
          None \<Rightarrow> ([], Panics nilDereference)
        | Some w \<Rightarrow>
            (let err = (case workerInitRetryOpts s name of
                          Some opts \<Rightarrow> rdo (Worker_Init w) opts
                        | None \<Rightarrow> Worker_Init w 0)
             in after [InitStep name err]
                  (if err \<noteq> None
                   then andThen
                          (emit (logger s) ErrorLevel [(''worker'', Str name)]
                             ''Could not initialize worker'')
                          (\<lambda>_. result err)
                   else result err)))"

text \<open>
  The loop over \<open>workersAdded\<close>. It returns the supervisor as the loop leaves it, and
  \<open>True\<close> when it ran to its end, \<open>False\<close> when a failed init made \<open>Run\<close> return.
\<close>

fun initLoop :: "retry_Do \<Rightarrow> SVC \<Rightarrow> string list \<Rightarrow> event list \<times> SVC \<times> bool outcome" where
  "initLoop rdo s [] = ([], s, Returns True)"
| "initLoop rdo s (name # names) =
     (case initStep rdo s name of
        (t, Returns None) \<Rightarrow>
          (case initLoop rdo (s\<lparr>workersInitialized := workersInitialized s @ [name]\<rparr>) names of
             (t', s', r) \<Rightarrow> (t @ t', s', r))
      | (t, Returns (Some e)) \<Rightarrow> (t, s, Returns False)
      | (t, Panics v) \<Rightarrow> (t, s, Panics v)
      | (t, Exits) \<Rightarrow> (t, s, Exits)
      | (t, Blocks) \<Rightarrow> (t, s, Blocks))"

subsection \<open>The workers' goroutines\<close>

text \<open>
  \<open>recoverWait\<close>, deferred by each worker's goroutine: it counts the wait group down,
  and when the goroutine is panicking it recovers the value and sends an error on the
  channel. The result is the error it sends, if any.
\<close>

definition recoverWait :: "SVC \<Rightarrow> string \<Rightarrow> panic_value option \<Rightarrow> (err option) io" where
  "recoverWait s name r =
     (case r of
        None \<Rightarrow> result None
      | Some (PanicError err) \<Rightarrow>
          andThen
            (emit (logger s) ErrorLevel [(''worker'', Str name), (''error'', Err err)]
               ''recover panic'')
            (\<lambda>_. result (Some err))
      | Some (PanicValue v) \<Rightarrow> result (Some (ErrorString v)))"

text \<open>
  The goroutine \<open>Run\<close> starts for a worker: the error it sends on the channel, if any.
  A send blocks until \<open>Run\<close> receives it.
\<close>

definition workerUnit :: "SVC \<Rightarrow> string \<Rightarrow> Worker \<Rightarrow> (err option) io" where
  "workerUnit s name w =
     (case Worker_Run w of
        RunBlocks \<Rightarrow> ([], Blocks)
      | RunReturns None \<Rightarrow> recoverWait s name None
      | RunReturns (Some err) \<Rightarrow>
          andThen (result (Some (Errorf_exited name err)))
            (\<lambda>sent. andThen (recoverWait s name None) (\<lambda>_. result sent))
      | RunPanics r \<Rightarrow> recoverWait s name (Some r))"

text \<open>
  Whether the goroutine counts the wait group down although nobody receives from the
  channel: after a nil return, and after a panic (\<open>recoverWait\<close> calls \<open>wg.Done\<close> before
  it sends). After an error return the send comes first.
\<close>

definition doneWithoutReceiver :: "Worker \<Rightarrow> bool" where
  "doneWithoutReceiver w =
     (case Worker_Run w of
        RunReturns None \<Rightarrow> True
      | RunReturns (Some err) \<Rightarrow> False
      | RunPanics r \<Rightarrow> True
      | RunBlocks \<Rightarrow> False)"

subsection \<open>The select statement\<close>

datatype signal = SIGINT | SIGTERM | SIGHUP

fun signal_String :: "signal \<Rightarrow> string" where
  "signal_String SIGINT = ''interrupt''"
| "signal_String SIGTERM = ''terminated''"
| "signal_String SIGHUP = ''hangup''"

text \<open>
  The case the select statement of \<open>Run\<close> takes is the runtime's choice among the cases
  that are ready, and an input of the model; \<open>None\<close> when no case ever gets ready.
  \<open>selectReady\<close> says which cases the workers make possible: an error some goroutine
  sends, a signal (the environment's), or the wait group reaching zero.
\<close>

datatype select_case = ErrorReceived err | SignalReceived signal | AllWorkersFinished

definition selectReady :: "SVC \<Rightarrow> string list \<Rightarrow> select_case \<Rightarrow> bool" where
  "selectReady s ks c =
     (case c of
        ErrorReceived err \<Rightarrow>
          list_ex (\<lambda>n. case workers s n of
                          None \<Rightarrow> False
                        | Some w \<Rightarrow> snd (workerUnit s n w) = Returns (Some err)) ks
      | SignalReceived sig \<Rightarrow> True
      | AllWorkersFinished \<Rightarrow>
          list_all (\<lambda>n. case workers s n of
                           None \<Rightarrow> True
                         | Some w \<Rightarrow> doneWithoutReceiver w) ks)"

text \<open>
  The run phase: a goroutine per entry of \<open>s.workers\<close> (\<open>ks\<close> is the order of the
  range), then the select statement.
\<close>

definition runPhase :: "SVC \<Rightarrow> string list \<Rightarrow> select_case option \<Rightarrow> unit io" where
  "runPhase s ks pick =
     after
       (concat (map (\<lambda>name. case workers s name of
                               None \<Rightarrow> []
                             | Some w \<Rightarrow> RunStarted name # fst (workerUnit s name w)) ks))
       (case pick of
          None \<Rightarrow> ([], Blocks)
        | Some (ErrorReceived err) \<Rightarrow>
            andThen
              (if \<not> errors_Is_Canceled err
               then emit (logger s) FatalLevel [(''error'', Err err)] ''Worker Init/Run failure''
               else result ())
              (\<lambda>_. emit (logger s) WarnLevel [(''error'', Err err)] ''Worker context canceled'')
        | Some (SignalReceived sig) \<Rightarrow>
            emit (logger s) WarnLevel [(''signal'', Str (signal_String sig))] ''Caught signal''
        | Some AllWorkersFinished \<Rightarrow>
            emit (logger s) InfoLevel [] ''All workers have finished'')"

subsection \<open>Termination\<close>

text \<open>
  The closure \<open>terminateWorkers\<close> defers for one initialised worker, started at time
  \<open>t\<close>: the time at which it ends.
\<close>

definition terminateOne :: "SVC \<Rightarrow> nat \<Rightarrow> string \<Rightarrow> nat io" where
  "terminateOne s t name =
     (case workers s name of
        None \<Rightarrow> ([], Panics nilDereference)
      | Some w \<Rightarrow>
          (case Worker_Terminate w of
             TerminateBlocks \<Rightarrow> ([TerminateCall name t None], Blocks)
           | TerminateReturns d err \<Rightarrow>
               after [TerminateCall name t (Some (t + d, err))]
                 (andThen
                    (if err \<noteq> None
                     then emit (logger s) ErrorLevel [(''worker'', Str name)]
                            ''Terminated with error''
                     else result ())
                 (\<lambda>_. andThen
                    (emit (logger s) InfoLevel [(''worker'', Str name)] ''Worker terminated'')
                 (\<lambda>_. result (t + d))))))"

text \<open>
  The deferred closures of the goroutine, in the order in which they run. When one
  panics the remaining ones still run, and then the goroutine dies of the panic.
\<close>

fun terminateAll :: "SVC \<Rightarrow> nat \<Rightarrow> string list \<Rightarrow> nat io" where
  "terminateAll s t [] = result t"
| "terminateAll s t (name # names) =
     (case terminateOne s t name of
        (ev, Returns t') \<Rightarrow> after ev (terminateAll s t' names)
      | (ev, Panics v) \<Rightarrow>
          (case terminateAll s t names of
             (ev', Returns _) \<Rightarrow> (ev @ ev', Panics v)
           | (ev', Panics v') \<Rightarrow> (ev @ ev', Panics v')
           | (ev', Exits) \<Rightarrow> (ev @ ev', Exits)
           | (ev', Blocks) \<Rightarrow> (ev @ ev', Blocks))
      | (ev, Exits) \<Rightarrow> (ev, Exits)
      | (ev, Blocks) \<Rightarrow> (ev, Blocks))"

text \<open>
  \<open>waitGroupTimeout\<close>: given the time at which the wait group reaches zero (\<open>None\<close>
  when it never does) and the duration \<open>d\<close>, the time at which the select returns.
  \<open>time.After\<close> of a duration that is not positive fires at once.
\<close>

definition waitGroupTimeout :: "nat option \<Rightarrow> int \<Rightarrow> nat" where
  "waitGroupTimeout finished d = (case finished of None \<Rightarrow> nat d | Some t \<Rightarrow> min t (nat d))"

text \<open>
  \<open>terminateWorkers\<close>: the goroutine sleeps for the wait period, defers one closure per
  initialised worker and returns, which runs the closures last in, first out, and then
  counts the wait group down. The caller waits for that or for the grace period.
  A panic of the goroutine ends the process.
\<close>

definition terminateWorkers :: "SVC \<Rightarrow> unit io" where
  "terminateWorkers s =
     andThen
       (emit (logger s) InfoLevel
          [(''termination_grace_period'', Dur (TerminationGracePeriod s))]
          ''Terminating workers down service'')
     (\<lambda>_. case terminateAll s (nat (TerminationWaitPeriod s)) (rev (workersInitialized s)) of
          (ev, Returns t) \<Rightarrow>
            after (ev @ [WaitReturned (waitGroupTimeout (Some t) (TerminationGracePeriod s))])
              (emit (logger s) InfoLevel [] ''All workers terminated'')
        | (ev, Blocks) \<Rightarrow>
            after (ev @ [WaitReturned (waitGroupTimeout None (TerminationGracePeriod s))])
              (emit (logger s) InfoLevel [] ''All workers terminated'')
        | (ev, Panics v) \<Rightarrow> (ev, Panics v)
        | (ev, Exits) \<Rightarrow> (ev, Exits))"

subsection \<open>Run\<close>

text \<open>The function \<open>Run\<close> defers: the shutdown path.\<close>

definition shutdown :: "SVC \<Rightarrow> unit io" where
  "shutdown s =
     andThen
       (emit (logger s) InfoLevel
          [(''termination_grace_period'', Dur (TerminationGracePeriod s))]
          ''Shutting down service'')
     (\<lambda>_. andThen (terminateWorkers s)
     (\<lambda>_. emit (logger s) InfoLevel [] ''Service shutdown completed''))"

text \<open>
  How a function body that ends as \<open>r\<close> and has deferred \<open>d\<close> ends: the deferred call
  runs when the body returns and when it panics (the panic goes on after it), and does
  not run when the process exits.
\<close>

definition deferred :: "unit outcome \<Rightarrow> unit io \<Rightarrow> unit io" where
  "deferred r d =
     (case r of
        Returns _ \<Rightarrow> d
      | Panics v \<Rightarrow>
          (case d of
             (t, Returns _) \<Rightarrow> (t, Panics v)
           | (t, Panics v') \<Rightarrow> (t, Panics v')
           | (t, Exits) \<Rightarrow> (t, Exits)
           | (t, Blocks) \<Rightarrow> (t, Blocks))
      | Exits \<Rightarrow> ([], Exits)
      | Blocks \<Rightarrow> ([], Blocks))"

text \<open>
  \<open>Run\<close>: the events, the supervisor as it is left, and how the call ends. The first
  log statement comes before the \<open>defer\<close>.
\<close>

definition Run :: "retry_Do \<Rightarrow> string list \<Rightarrow> select_case option \<Rightarrow> SVC \<Rightarrow> event list \<times> SVC \<times> unit outcome" where
  "Run rdo ks pick s =
     (case emit (logger s) InfoLevel [] ''Starting up service'' of
        (t0, Returns _) \<Rightarrow>
          (case initLoop rdo s (workersAdded s) of
             (t1, s1, r1) \<Rightarrow>
               (case (case r1 of
                        Returns True \<Rightarrow> runPhase s1 ks pick
                      | Returns False \<Rightarrow> result ()
                      | Panics v \<Rightarrow> ([], Panics v)
                      | Exits \<Rightarrow> ([], Exits)
                      | Blocks \<Rightarrow> ([], Blocks)) of
                  (t2, r2) \<Rightarrow>
                    (case deferred r2 (shutdown s1) of
                       (t3, r3) \<Rightarrow> (t0 @ t1 @ t2 @ t3, s1, r3))))
      | (t0, Panics v) \<Rightarrow> (t0, s, Panics v)
      | (t0, Exits) \<Rightarrow> (t0, s, Exits)
      | (t0, Blocks) \<Rightarrow> (t0, s, Blocks))"

subsection \<open>Reading a list of events\<close>

definition initSteps :: "event list \<Rightarrow> (string \<times> err option) list" where
  "initSteps t = concat (map (\<lambda>e. case e of InitStep n r \<Rightarrow> [(n, r)] | _ \<Rightarrow> []) t)"

definition initialisedIn :: "event list \<Rightarrow> string list" where
  "initialisedIn t = map fst (filter (\<lambda>p. snd p = None) (initSteps t))"

definition runStarts :: "event list \<Rightarrow> string list" where
  "runStarts t = concat (map (\<lambda>e. case e of RunStarted n \<Rightarrow> [n] | _ \<Rightarrow> []) t)"

definition terminateCalls :: "event list \<Rightarrow> (string \<times> nat \<times> (nat \<times> err option) option) list" where
  "terminateCalls t =
     concat (map (\<lambda>e. case e of TerminateCall n a b \<Rightarrow> [(n, a, b)] | _ \<Rightarrow> []) t)"

definition terminated :: "event list \<Rightarrow> string list" where
  "terminated t = map fst (terminateCalls t)"

definition waitReturns :: "event list \<Rightarrow> nat list" where
  "waitReturns t = concat (map (\<lambda>e. case e of WaitReturned a \<Rightarrow> [a] | _ \<Rightarrow> []) t)"

text \<open>How the init step of a name ends, and with which error.\<close>

definition initResult :: "retry_Do \<Rightarrow> SVC \<Rightarrow> string \<Rightarrow> err option outcome" where
  "initResult rdo s name = snd (initStep rdo s name)"

text \<open>
  Whether the worker registered under a name returns from \<open>Terminate\<close>, and the names
  of a list that a sequential pass reaches: all up to and including the first that does
  not return.
\<close>

definition terminateReturns :: "(string \<rightharpoonup> Worker) \<Rightarrow> string \<Rightarrow> bool" where
  "terminateReturns ws n =
     (case ws n of
        None \<Rightarrow> False
      | Some w \<Rightarrow> (case Worker_Terminate w of TerminateReturns d e \<Rightarrow> True | TerminateBlocks \<Rightarrow> False))"

definition reached :: "(string \<rightharpoonup> Worker) \<Rightarrow> string list \<Rightarrow> string list" where
  "reached ws ns = takeWhile (terminateReturns ws) ns @ take 1 (dropWhile (terminateReturns ws) ns)"

text \<open>Calls that follow one another: each starts when the one before it has returned.\<close>

fun sequential :: "(string \<times> nat \<times> (nat \<times> err option) option) list \<Rightarrow> bool" where
  "sequential [] = True"
| "sequential [c] = True"
| "sequential ((n, a, b) # (n', a', b') # cs) =
     ((case b of None \<Rightarrow> False | Some (e, r) \<Rightarrow> e \<le> a') \<and> sequential ((n', a', b') # cs))"

text \<open>The value of \<open>err\<close> an init step computes for a registered worker.\<close>

definition initErr :: "retry_Do \<Rightarrow> SVC \<Rightarrow> string \<Rightarrow> Worker \<Rightarrow> err option" where
  "initErr rdo s name w =
     (case workerInitRetryOpts s name of
        Some opts \<Rightarrow> rdo (Worker_Init w) opts
      | None \<Rightarrow> Worker_Init w 0)"

subsection \<open>Parts of a run\<close>

text \<open>The events of the workers' goroutines, and what \<open>Run\<close> does once the loop is over.\<close>

definition unitEvents :: "SVC \<Rightarrow> string list \<Rightarrow> event list" where
  "unitEvents s ks =
     concat (map (\<lambda>name. case workers s name of
                             None \<Rightarrow> []
                           | Some w \<Rightarrow> RunStarted name # fst (workerUnit s name w)) ks)"

definition afterInit :: "SVC \<Rightarrow> string list \<Rightarrow> select_case option \<Rightarrow> bool outcome \<Rightarrow> unit io" where
  "afterInit s1 ks pick r1 =
     (case r1 of
        Returns True \<Rightarrow> runPhase s1 ks pick
      | Returns False \<Rightarrow> result ()
      | Panics v \<Rightarrow> ([], Panics v)
      | Exits \<Rightarrow> ([], Exits)
      | Blocks \<Rightarrow> ([], Blocks))"

section \<open>Sample values\<close>

text \<open>Concrete workers and supervisors, used to instantiate the theorems below.\<close>

definition quietWorker :: Worker where
  "quietWorker =
     \<lparr>Worker_Init = (\<lambda>k. None), Worker_Run = RunReturns None,
      Worker_Terminate = TerminateReturns 0 None,
      Aliver_Alive = Some None, Healther_Healthy = Some None\<rparr>"

definition plainWorker :: Worker where
  "plainWorker = quietWorker\<lparr>Aliver_Alive := None, Healther_Healthy := None\<rparr>"

definition loggedSVC :: SVC where
  "loggedSVC =
     \<lparr>Name = ''svc'', Version = ''v0'', Router = Some [],
      TerminationGracePeriod = defaultTerminationGracePeriod,
      TerminationWaitPeriod = defaultTerminationWaitPeriod,
      logger = newLogger ''svc'',
      workers = Map.empty, workerInitRetryOpts = Map.empty,
      workersAdded = [], workersInitialized = []\<rparr>"

definition minimalService :: SVC where
  "minimalService =
     \<lparr>Name = ''minimal-service'', Version = ''1.0.0'',
      Router = Some [(''/live'', liveProbe), (''/ready'', readyProbe)],
      TerminationGracePeriod = 5,
      TerminationWaitPeriod = 0,
      logger = None,
      workers = Map.empty, workerInitRetryOpts = Map.empty,
      workersAdded = [], workersInitialized = []\<rparr>"

definition dummyService :: SVC where
  "dummyService =
     \<lparr>Name = ''dummy-service'', Version = ''v0.0.0'',
      Router = Some [(''/live'', liveProbe), (''/ready'', readyProbe)],
      TerminationGracePeriod = defaultTerminationGracePeriod,
      TerminationWaitPeriod = defaultTerminationWaitPeriod,
      logger = None,
      workers = Map.empty, workerInitRetryOpts = Map.empty,
      workersAdded = [], workersInitialized = []\<rparr>"

definition restartWorker :: Worker where
  "restartWorker =
     quietWorker\<lparr>Aliver_Alive := Some (Some (ErrorString ''internal error, restart container''))\<rparr>"

definition readySample :: SVC where
  "readySample =
     loggedSVC\<lparr>workers := [''a'' \<mapsto> quietWorker\<lparr>Healther_Healthy := Some (Some Canceled)\<rparr>,
                            ''b'' \<mapsto> plainWorker]\<rparr>"

definition liveSample :: SVC where
  "liveSample =
     loggedSVC\<lparr>workers := [''a'' \<mapsto> quietWorker\<lparr>Aliver_Alive := Some (Some Canceled)\<rparr>,
                            ''b'' \<mapsto> plainWorker]\<rparr>"

definition slowWorker :: Worker where
  "slowWorker = quietWorker\<lparr>Worker_Terminate := TerminateReturns 7 None\<rparr>"

definition stuckWorker :: Worker where
  "stuckWorker = quietWorker\<lparr>Worker_Terminate := TerminateBlocks\<rparr>"

definition stoppingSVC :: SVC where
  "stoppingSVC =
     loggedSVC\<lparr>workers := [''a'' \<mapsto> stuckWorker, ''b'' \<mapsto> slowWorker],
               workersAdded := [''a'', ''b''], workersInitialized := [''a'', ''b''],
               TerminationGracePeriod := 0\<rparr>"

definition retryTwice :: retry_Do where
  "retryTwice f opts = (case f 0 of None \<Rightarrow> None | Some e \<Rightarrow> f 1)"

definition flakyWorker :: Worker where
  "flakyWorker =
     quietWorker\<lparr>Worker_Init := (\<lambda>k. if k = 0 then Some (ErrorString ''not yet'') else None)\<rparr>"

definition brokenWorker :: Worker where
  "brokenWorker = quietWorker\<lparr>Worker_Init := (\<lambda>k. Some (ErrorString ''no database''))\<rparr>"

definition startingSVC :: SVC where
  "startingSVC =
     loggedSVC\<lparr>workers := [''a'' \<mapsto> slowWorker, ''b'' \<mapsto> flakyWorker, ''c'' \<mapsto> brokenWorker,
                          ''d'' \<mapsto> quietWorker],
               workerInitRetryOpts := [''b'' \<mapsto> [retry_Option ''attempts 2'']],
               workersAdded := [''a'', ''b'', ''c'', ''d'']\<rparr>"

definition boomWorker :: Worker where
  "boomWorker = quietWorker\<lparr>Worker_Run := RunReturns (Some (ErrorString ''boom''))\<rparr>"

definition canceledWorker :: Worker where
  "canceledWorker = quietWorker\<lparr>Worker_Run := RunReturns (Some Canceled)\<rparr>"

definition servingWorker :: Worker where
  "servingWorker = quietWorker\<lparr>Worker_Run := RunBlocks\<rparr>"

definition failingSVC :: SVC where
  "failingSVC =
     loggedSVC\<lparr>workers := [''a'' \<mapsto> servingWorker, ''b'' \<mapsto> boomWorker],
               workersAdded := [''a'', ''b'']\<rparr>"

definition cancelingSVC :: SVC where
  "cancelingSVC =
     loggedSVC\<lparr>workers := [''a'' \<mapsto> servingWorker, ''b'' \<mapsto> canceledWorker],
               workersAdded := [''a'', ''b'']\<rparr>"

section \<open>Basic facts\<close>

lemma andThen_Returns [simp]: "andThen (t, Returns a) f = after t (f a)"
  by (simp add: andThen_def after_def)

lemma andThen_result [simp]: "andThen (result a) f = f a"
  by (simp add: andThen_def result_def split: prod.splits)

lemma andThen_stops [simp]:
  "andThen (t, Panics v) f = (t, Panics v)"
  "andThen (t, Exits) f = (t, Exits)"
  "andThen (t, Blocks) f = (t, Blocks)"
  by (simp_all add: andThen_def)

lemma after_Nil [simp]: "after [] m = m"
  by (simp add: after_def split: prod.splits)

lemma after_pair [simp]: "after t (t', r) = (t @ t', r)"
  by (simp add: after_def)

lemma snd_after [simp]: "snd (after t m) = snd m"
  by (cases m) simp

lemma fst_after [simp]: "fst (after t m) = t @ fst m"
  by (cases m) simp

lemma emit_nil [simp]: "emit None lvl fs m = ([], Panics nilDereference)"
  by (simp add: emit_def)

lemma emit_Some [simp]:
  "emit (Some l) lvl fs m = ([Log lvl m fs], if lvl = FatalLevel then Exits else Returns ())"
  by (simp add: emit_def)

section \<open>Registration\<close>

lemma AddWorker_duplicate:
  "workers s name \<noteq> None \<Longrightarrow>
   AddWorker s name w =
     (if logger s = None then ([], Panics nilDereference)
      else ([Log FatalLevel ''Duplicate worker names!'' [(''name'', Str name)]], Exits))"
  by (cases "logger s") (auto simp: AddWorker_def)

lemma AddWorkerWithInitRetry_duplicate:
  "workers s name \<noteq> None \<Longrightarrow>
   AddWorkerWithInitRetry s name w ro =
     (if logger s = None then ([], Panics nilDereference)
      else ([Log FatalLevel ''Duplicate worker names!'' [(''name'', Str name)]], Exits))"
  by (simp add: AddWorkerWithInitRetry_def AddWorker_duplicate)

lemma AddWorker_outcome:
  "snd (AddWorker s name w) =
     (if workers s name \<noteq> None
      then (if logger s = None then Panics nilDereference else Exits)
      else if logger s = None \<and> (Healther_Healthy w = None \<or> Aliver_Alive w = None)
      then Panics nilDereference
      else Returns (s\<lparr>workersAdded := workersAdded s @ [name],
                       workers := (workers s)(name \<mapsto> w)\<rparr>))"
  by (cases "logger s") (auto simp: AddWorker_def result_def)

lemma AddWorkerWithInitRetry_outcome:
  "snd (AddWorkerWithInitRetry s name w ro) =
     (if workers s name \<noteq> None
      then (if logger s = None then Panics nilDereference else Exits)
      else if logger s = None \<and> (Healther_Healthy w = None \<or> Aliver_Alive w = None)
      then Panics nilDereference
      else Returns (s\<lparr>workersAdded := workersAdded s @ [name],
                       workers := (workers s)(name \<mapsto> w),
                       workerInitRetryOpts := (workerInitRetryOpts s)(name \<mapsto> ro)\<rparr>))"
  using AddWorker_outcome [of s name w]
  by (cases "AddWorker s name w")
     (auto simp: AddWorkerWithInitRetry_def result_def split: if_splits)

lemma register_result:
  "register s r = (t, Returns s') \<Longrightarrow>
   workers s (registeredName r) = None \<and> logger s' = logger s \<and>
   (\<exists>w. workers s' = (workers s)(registeredName r \<mapsto> w))"
  apply (cases r)
  subgoal for name w
    using AddWorker_outcome [of s name w] by (auto split: if_splits)
  subgoal for name w ro
    using AddWorkerWithInitRetry_outcome [of s name w ro] by (auto split: if_splits)
  done

lemma register_fresh:
  "register s r = (t, Returns s') \<Longrightarrow> workers s (registeredName r) = None"
  by (drule register_result) simp

lemma register_logger: "register s r = (t, Returns s') \<Longrightarrow> logger s' = logger s"
  by (drule register_result) simp

lemma register_keeps:
  "register s r = (t, Returns s') \<Longrightarrow> workers s n \<noteq> None \<Longrightarrow> workers s' n \<noteq> None"
  by (drule register_result) auto

lemma register_adds:
  "register s r = (t, Returns s') \<Longrightarrow> workers s' (registeredName r) \<noteq> None"
  by (drule register_result) auto

lemma register_stops:
  "register s r = (t, x) \<Longrightarrow>
   x \<noteq> Blocks \<and> (\<forall>v. x = Panics v \<longrightarrow> logger s = None \<and> v = nilDereference) \<and>
   (x = Exits \<longrightarrow> logger s \<noteq> None)"
  apply (cases r)
  subgoal for name w
    using AddWorker_outcome [of s name w] by (auto split: if_splits)
  subgoal for name w ro
    using AddWorkerWithInitRetry_outcome [of s name w ro] by (auto split: if_splits)
  done

lemma registerAll_step:
  "register s r = (t1, x) \<Longrightarrow>
   snd (registerAll s (r # rs)) =
     (case x of Returns s1 \<Rightarrow> snd (registerAll s1 rs) | _ \<Rightarrow> x)"
  by (cases x) simp_all

lemma registerAll_registered:
  "n \<in> set (map registeredName rs) \<Longrightarrow> workers s n \<noteq> None \<Longrightarrow>
   snd (registerAll s rs) = (if logger s = None then Panics nilDereference else Exits)"
proof (induction rs arbitrary: s)
  case Nil
  then show ?case by simp
next
  case (Cons r rs)
  obtain t1 x where reg: "register s r = (t1, x)" by (cases "register s r")
  note step = registerAll_step [OF reg, of rs]
  show ?case
  proof (cases x)
    case (Returns s1)
    with reg have reg1: "register s r = (t1, Returns s1)" by simp
    from register_fresh [OF reg1] Cons.prems(2) have "n \<noteq> registeredName r" by auto
    with Cons.prems(1) have "n \<in> set (map registeredName rs)" by auto
    moreover from register_keeps [OF reg1 Cons.prems(2)] have "workers s1 n \<noteq> None" .
    ultimately have
      "snd (registerAll s1 rs) = (if logger s1 = None then Panics nilDereference else Exits)"
      by (rule Cons.IH)
    then show ?thesis unfolding step Returns register_logger [OF reg1] by simp
  next
    case (Panics v)
    with register_stops [OF reg] show ?thesis unfolding step by simp
  next
    case Exits
    with register_stops [OF reg] show ?thesis unfolding step by simp
  next
    case Blocks
    with register_stops [OF reg] show ?thesis by simp
  qed
qed

lemma registerAll_duplicate:
  "\<not> distinct (map registeredName rs) \<Longrightarrow>
   snd (registerAll s rs) = (if logger s = None then Panics nilDereference else Exits)"
proof (induction rs arbitrary: s)
  case Nil
  then show ?case by simp
next
  case (Cons r rs)
  obtain t1 x where reg: "register s r = (t1, x)" by (cases "register s r")
  note step = registerAll_step [OF reg, of rs]
  show ?case
  proof (cases x)
    case (Returns s1)
    with reg have reg1: "register s r = (t1, Returns s1)" by simp
    have "snd (registerAll s1 rs) = (if logger s1 = None then Panics nilDereference else Exits)"
    proof (cases "distinct (map registeredName rs)")
      case True
      with Cons.prems have "registeredName r \<in> set (map registeredName rs)" by simp
      then show ?thesis using register_adds [OF reg1] by (rule registerAll_registered)
    next
      case False
      then show ?thesis by (rule Cons.IH)
    qed
    then show ?thesis unfolding step Returns register_logger [OF reg1] by simp
  next
    case (Panics v)
    with register_stops [OF reg] show ?thesis unfolding step by simp
  next
    case Exits
    with register_stops [OF reg] show ?thesis unfolding step by simp
  next
    case Blocks
    with register_stops [OF reg] show ?thesis by simp
  qed
qed

text \<open>
  C5. A registration under a name that is already registered never returns, through
  \<open>AddWorker\<close> and through \<open>AddWorkerWithInitRetry\<close> alike and whatever the worker:
  the duplicate is found by the first statement of \<open>AddWorker\<close>, which asks the logger
  for a fatal event. On a logger that event ends the process; a nil logger is dereferenced
  by the same statement. The supervisor is not changed, and \<open>Run\<close> is not involved.
  Hence a sequence of registrations in which a name occurs twice never runs to its end.
\<close>

theorem duplicate_registration_is_fatal:
  "(workers s name \<noteq> None \<longrightarrow>
      AddWorker s name w =
        (if logger s = None then ([], Panics nilDereference)
         else ([Log FatalLevel ''Duplicate worker names!'' [(''name'', Str name)]], Exits)) \<and>
      AddWorkerWithInitRetry s name w ro =
        (if logger s = None then ([], Panics nilDereference)
         else ([Log FatalLevel ''Duplicate worker names!'' [(''name'', Str name)]], Exits))) \<and>
   (\<not> distinct (map registeredName rs) \<longrightarrow>
      snd (registerAll s rs) = (if logger s = None then Panics nilDereference else Exits))"
  using AddWorker_duplicate [of s name w] AddWorkerWithInitRetry_duplicate [of s name w ro]
    registerAll_duplicate [of rs s]
  by blast

lemma quietWorker_fields [simp]:
  "Aliver_Alive quietWorker = Some None" "Healther_Healthy quietWorker = Some None"
  "Worker_Run quietWorker = RunReturns None"
  "Worker_Terminate quietWorker = TerminateReturns 0 None"
  "Worker_Init quietWorker k = None"
  by (simp_all add: quietWorker_def)

lemma plainWorker_fields [simp]:
  "Aliver_Alive plainWorker = None" "Healther_Healthy plainWorker = None"
  "Worker_Run plainWorker = RunReturns None"
  "Worker_Terminate plainWorker = TerminateReturns 0 None"
  "Worker_Init plainWorker k = None"
  by (simp_all add: plainWorker_def)

lemma loggedSVC_fields [simp]:
  "logger loggedSVC = Some (zerolog_Logger ''svc'')"
  "workers loggedSVC = Map.empty" "workerInitRetryOpts loggedSVC = Map.empty"
  "workersAdded loggedSVC = []" "workersInitialized loggedSVC = []"
  "TerminationGracePeriod loggedSVC = 15000000000" "TerminationWaitPeriod loggedSVC = 0"
  by (simp_all add: loggedSVC_def newLogger_def defaultTerminationGracePeriod_def
      defaultTerminationWaitPeriod_def Second_def)

theorem duplicate_registration_is_fatal_witness:
  "workers (loggedSVC\<lparr>workers := [''db'' \<mapsto> plainWorker]\<rparr>) ''db'' \<noteq> None \<and>
   AddWorker (loggedSVC\<lparr>workers := [''db'' \<mapsto> plainWorker]\<rparr>) ''db'' quietWorker =
     ([Log FatalLevel ''Duplicate worker names!'' [(''name'', Str ''db'')]], Exits) \<and>
   AddWorkerWithInitRetry (loggedSVC\<lparr>workers := [''db'' \<mapsto> plainWorker]\<rparr>) ''db''
       quietWorker [] =
     ([Log FatalLevel ''Duplicate worker names!'' [(''name'', Str ''db'')]], Exits) \<and>
   \<not> distinct (map registeredName
      [Register ''db'' plainWorker, Register ''api'' quietWorker,
       RegisterWithRetry ''db'' quietWorker []]) \<and>
   snd (registerAll loggedSVC
      [Register ''db'' plainWorker, Register ''api'' quietWorker,
       RegisterWithRetry ''db'' quietWorker []]) = Exits"
  using duplicate_registration_is_fatal
      [of "loggedSVC\<lparr>workers := [''db'' \<mapsto> plainWorker]\<rparr>" "''db''" quietWorker "[]" "[]"]
    duplicate_registration_is_fatal [of loggedSVC "''db''" quietWorker "[]"
      "[Register ''db'' plainWorker, Register ''api'' quietWorker,
        RegisterWithRetry ''db'' quietWorker []]"]
  by simp

section \<open>The constructor and the logger\<close>

lemma applyOption_keeps:
  "applyOption opt s = Returns (s', e) \<Longrightarrow>
   e = None \<and> logger s' = logger s \<and> workers s' = workers s \<and>
   workersAdded s' = workersAdded s \<and> workersInitialized s' = workersInitialized s \<and>
   workerInitRetryOpts s' = workerInitRetryOpts s"
  by (cases opt) (auto split: outcome.splits)

lemma applyOptions_keeps:
  "applyOptions opts s = Returns (Some s', e) \<Longrightarrow>
   e = None \<and> logger s' = logger s \<and> workers s' = workers s \<and>
   workersAdded s' = workersAdded s \<and> workersInitialized s' = workersInitialized s \<and>
   workerInitRetryOpts s' = workerInitRetryOpts s"
proof (induction opts arbitrary: s)
  case Nil
  then show ?case by simp
next
  case (Cons opt opts)
  show ?case
  proof (cases "applyOption opt s")
    case (Returns p)
    obtain s1 e1 where p: "p = (s1, e1)" by (cases p)
    from applyOption_keeps [OF Returns [unfolded p]] have e1: "e1 = None" and
      k: "logger s1 = logger s" "workers s1 = workers s" "workersAdded s1 = workersAdded s"
        "workersInitialized s1 = workersInitialized s"
        "workerInitRetryOpts s1 = workerInitRetryOpts s"
      by simp_all
    from Cons.prems Returns p e1 have "applyOptions opts s1 = Returns (Some s', e)" by simp
    from Cons.IH [OF this] k show ?thesis by simp
  next
    case (Panics v)
    with Cons.prems show ?thesis by simp
  next
    case Exits
    with Cons.prems show ?thesis by simp
  next
    case Blocks
    with Cons.prems show ?thesis by simp
  qed
qed

lemma applyOptions_never_fails:
  "applyOptions opts s = Returns (so, e) \<Longrightarrow> e = None \<and> so \<noteq> None"
proof (induction opts arbitrary: s)
  case Nil
  then show ?case by auto
next
  case (Cons opt opts)
  show ?case
  proof (cases "applyOption opt s")
    case (Returns p)
    obtain s1 e1 where p: "p = (s1, e1)" by (cases p)
    from applyOption_keeps [OF Returns [unfolded p]] have e1: "e1 = None" by simp
    from Cons.prems Returns p e1 have "applyOptions opts s1 = Returns (so, e)" by simp
    from Cons.IH [OF this] show ?thesis .
  next
    case (Panics v)
    with Cons.prems show ?thesis by simp
  next
    case Exits
    with Cons.prems show ?thesis by simp
  next
    case Blocks
    with Cons.prems show ?thesis by simp
  qed
qed

lemma AddWorker_nil_logger:
  "logger s = None \<Longrightarrow> Healther_Healthy w = None \<or> Aliver_Alive w = None \<Longrightarrow>
   AddWorker s n w = ([], Panics nilDereference)"
  by (auto simp: AddWorker_def result_def)

text \<open>
  C9. Whatever the name, the version and the options, a supervisor that \<open>New\<close> returns
  has a nil logger: the constructor sets no logger and no option of \<open>options.go\<close> writes
  the field (\<open>newLogger\<close> has no caller). So \<open>Logger\<close> returns nil although \<open>New\<close>
  succeeded, no worker is registered yet, and the first \<open>AddWorker\<close> with a worker that
  lacks the readiness or the liveness interface asks the nil logger for an info event
  and panics on the nil pointer.
\<close>

theorem New_logger_is_nil:
  "New name version opts = Returns (Some s, e) \<Longrightarrow>
   e = None \<and> logger s = None \<and> Logger s = None \<and> workers s = Map.empty \<and>
   (Healther_Healthy w = None \<or> Aliver_Alive w = None \<longrightarrow>
      AddWorker s n w = ([], Panics nilDereference))"
  using applyOptions_keeps [of opts _ s e] AddWorker_nil_logger [of s w n]
  by (auto simp: New_def Logger_def)

theorem New_logger_is_nil_witness:
  "New ''minimal-service'' ''1.0.0'' [WithTerminationGracePeriod 5, WithHealthz] =
     Returns (Some minimalService, None) \<and>
   logger minimalService = None \<and> Logger minimalService = None \<and>
   Healther_Healthy (quietWorker\<lparr>Healther_Healthy := None\<rparr>) = None \<and>
   AddWorker minimalService ''dummy-worker'' (quietWorker\<lparr>Healther_Healthy := None\<rparr>) =
     ([], Panics nilDereference)"
proof -
  have new: "New ''minimal-service'' ''1.0.0'' [WithTerminationGracePeriod 5, WithHealthz] =
     Returns (Some minimalService, None)"
    by (simp add: New_def minimalService_def healthzRoutes_def Handle_def
        defaultTerminationWaitPeriod_def)
  from New_logger_is_nil [OF new, of "quietWorker\<lparr>Healther_Healthy := None\<rparr>" "''dummy-worker''"]
  show ?thesis using new by simp
qed

section \<open>The probe handlers\<close>

lemma liveErrs_acc: "liveErrs ws ns errs = errs @ liveErrs ws ns []"
proof (induction ns arbitrary: errs)
  case Nil
  show ?case by simp
next
  case (Cons n ns)
  show ?case
    using Cons.IH [of errs] Cons.IH [of "errs @ [Errorf_worker n e]" for e]
      Cons.IH [of "[Errorf_worker n e]" for e]
    by (simp split: option.splits)
qed

lemma readyErrs_acc: "readyErrs ws ns errs = errs @ readyErrs ws ns []"
proof (induction ns arbitrary: errs)
  case Nil
  show ?case by simp
next
  case (Cons n ns)
  show ?case
    using Cons.IH [of errs] Cons.IH [of "errs @ [Errorf_worker n e]" for e]
      Cons.IH [of "[Errorf_worker n e]" for e]
    by (simp split: option.splits)
qed

lemma liveErrs_Cons:
  "liveErrs ws (n # ns) [] =
     (case ws n of None \<Rightarrow> []
      | Some w \<Rightarrow> (case Aliver_Alive w of Some (Some e) \<Rightarrow> [Errorf_worker n e] | _ \<Rightarrow> []))
     @ liveErrs ws ns []"
  using liveErrs_acc [of ws ns "[Errorf_worker n e]" for e]
  by (simp split: option.splits)

lemma readyErrs_Cons:
  "readyErrs ws (n # ns) [] =
     (case ws n of None \<Rightarrow> []
      | Some w \<Rightarrow> (case Healther_Healthy w of Some (Some e) \<Rightarrow> [Errorf_worker n e] | _ \<Rightarrow> []))
     @ readyErrs ws ns []"
  using readyErrs_acc [of ws ns "[Errorf_worker n e]" for e]
  by (simp split: option.splits)

lemma liveErrs_empty_iff:
  "liveErrs ws ns [] = [] \<longleftrightarrow>
   (\<forall>n \<in> set ns. \<forall>w e. ws n = Some w \<longrightarrow> Aliver_Alive w \<noteq> Some (Some e))"
proof (induction ns)
  case Nil
  show ?case by simp
next
  case (Cons n ns)
  show ?case unfolding liveErrs_Cons using Cons.IH
    by (auto split: option.splits)
qed

lemma liveErrs_set:
  "set (liveErrs ws ns []) =
   {Errorf_worker n e | n e w. n \<in> set ns \<and> ws n = Some w \<and> Aliver_Alive w = Some (Some e)}"
proof (induction ns)
  case Nil
  show ?case by simp
next
  case (Cons n ns)
  show ?case
  proof (cases "ws n")
    case None
    then show ?thesis unfolding liveErrs_Cons using Cons.IH by auto
  next
    case (Some w)
    show ?thesis
    proof (cases "Aliver_Alive w")
      case None
      with Some show ?thesis unfolding liveErrs_Cons using Cons.IH by auto
    next
      case outer: (Some r)
      show ?thesis
      proof (cases r)
        case None
        with Some outer show ?thesis unfolding liveErrs_Cons using Cons.IH by auto
      next
        case inner: (Some e)
        with Some outer show ?thesis unfolding liveErrs_Cons using Cons.IH by auto
      qed
    qed
  qed
qed

lemma ready_as_live:
  "\<forall>n \<in> set ks. map_option Healther_Healthy (ws n) = map_option Aliver_Alive (ws' n) \<Longrightarrow>
   readyErrs ws ks [] = liveErrs ws' ks []"
proof (induction ks)
  case Nil
  show ?case by simp
next
  case (Cons n ns)
  then have "readyErrs ws ns [] = liveErrs ws' ns []" by simp
  moreover from Cons.prems have "map_option Healther_Healthy (ws n) = map_option Aliver_Alive (ws' n)"
    by simp
  ultimately show ?case unfolding liveErrs_Cons readyErrs_Cons
    by (cases "ws n"; cases "ws' n") (auto split: option.splits)
qed

lemma serveLive_eq:
  "serveLive s ks =
     (let errs = liveErrs (workers s) ks [] in
      if errs = []
      then ([], Returns \<lparr>header = [(''Content-Type'', ''application/json'')], wroteHeader = True,
              statusCode = 200, sentHeader = [(''Content-Type'', ''application/json'')],
              body = ''{\"status\": \"Still Alive!\"}''\<rparr>)
      else if logger s = None then ([], Panics nilDereference)
      else ([Log WarnLevel ''liveliness probe failed'' [(''errors'', Errs errs)]],
            Returns \<lparr>header = [(''Content-Type'', ''application/json'')], wroteHeader = True,
              statusCode = 503, sentHeader = [(''Content-Type'', ''application/json'')],
              body = fst (json_Marshal_errors errs)\<rparr>))"
  by (cases "logger s")
     (auto simp: serveLive_def liveHandler_def Let_def result_def finish_def Write_def
       WriteHeader_def Header_Set_def emptyResponse_def json_Marshal_errors_def
       StatusServiceUnavailable_def)

lemma serveReady_eq:
  "serveReady s ks =
     (let errs = readyErrs (workers s) ks [] in
      if errs = []
      then ([], Returns \<lparr>header = [], wroteHeader = True,
              statusCode = 200, sentHeader = [], body = []\<rparr>)
      else if logger s = None then ([], Panics nilDereference)
      else ([Log WarnLevel ''Ready check failed'' [(''errors'', Errs errs)]],
            Returns \<lparr>header = [(''Content-Type'', ''application/json'')], wroteHeader = True,
              statusCode = 503, sentHeader = [],
              body = fst (json_Marshal_errors errs)\<rparr>))"
  by (cases "logger s")
     (auto simp: serveReady_def readyHandler_def Let_def result_def finish_def Write_def
       WriteHeader_def Header_Set_def emptyResponse_def json_Marshal_errors_def
       StatusServiceUnavailable_def)

text \<open>
  C6. The liveness handler calls \<open>Alive\<close> only on the workers that implement it, answers
  200 exactly when no call returned an error, and on a failure builds one error
  \<open>worker <name>: <error>\<close> per failing worker (\<open>liveErrs_empty_iff\<close>, \<open>liveErrs_set\<close>,
  \<open>serveLive_eq\<close>). Before it writes the 503 it asks the logger for a warning event. On the
  supervisor that \<open>New\<close> returns the logger is nil, so with a worker whose \<open>Alive\<close>
  returns an error the handler panics and no answer is written: the second case of the
  repository's own test, evaluated.
\<close>

theorem liveness_failure_panics_without_logger:
  "New ''dummy-service'' ''v0.0.0'' [WithHealthz] = Returns (Some dummyService, None) \<and>
   AddWorker dummyService ''dummy-worker'' restartWorker =
     ([], Returns (dummyService\<lparr>workersAdded := [''dummy-worker''],
                               workers := [''dummy-worker'' \<mapsto> restartWorker]\<rparr>)) \<and>
   liveErrs [''dummy-worker'' \<mapsto> restartWorker] [''dummy-worker''] [] =
     [ErrorString ''worker dummy-worker: internal error, restart container''] \<and>
   serveLive (dummyService\<lparr>workersAdded := [''dummy-worker''],
                            workers := [''dummy-worker'' \<mapsto> restartWorker]\<rparr>)
     [''dummy-worker''] = ([], Panics nilDereference)"
  by (simp add: New_def dummyService_def healthzRoutes_def Handle_def AddWorker_def
      restartWorker_def quietWorker_def result_def serveLive_eq Errorf_worker_def)

text \<open>
  C7, as the code has it. Given the same results from the capability each reads, the
  readiness handler and the liveness handler collect the same errors, end the same way
  (both return or both panic on a nil logger), answer with the same status code (200
  when no error was collected, 503 otherwise) and, on a failure, with the same body.
  When no error was collected the answers differ: liveness writes a JSON status body
  under a JSON content type, readiness writes nothing at all.
\<close>

theorem readiness_matches_liveness:
  assumes "\<forall>n \<in> set ks.
             map_option Healther_Healthy (workers s n) = map_option Aliver_Alive (workers s' n)"
    and "logger s = logger s'"
  shows "readyErrs (workers s) ks [] = liveErrs (workers s') ks [] \<and>
         map_outcome statusCode (snd (serveReady s ks)) =
           map_outcome statusCode (snd (serveLive s' ks)) \<and>
         (liveErrs (workers s') ks [] \<noteq> [] \<longrightarrow>
            map_outcome body (snd (serveReady s ks)) = map_outcome body (snd (serveLive s' ks))) \<and>
         (liveErrs (workers s') ks [] = [] \<longrightarrow>
            map_outcome (\<lambda>w. (sentHeader w, body w)) (snd (serveLive s' ks)) =
              Returns ([(''Content-Type'', ''application/json'')], ''{\"status\": \"Still Alive!\"}'') \<and>
            map_outcome (\<lambda>w. (sentHeader w, body w)) (snd (serveReady s ks)) = Returns ([], []))"
proof -
  have errs: "readyErrs (workers s) ks [] = liveErrs (workers s') ks []"
    using assms(1) by (rule ready_as_live)
  show ?thesis
    unfolding serveLive_eq serveReady_eq errs using assms(2)
    by (simp add: Let_def)
qed

theorem readiness_matches_liveness_witness:
  "map_option Healther_Healthy (workers readySample ''a'') =
     map_option Aliver_Alive (workers liveSample ''a'') \<and>
   map_option Healther_Healthy (workers readySample ''b'') =
     map_option Aliver_Alive (workers liveSample ''b'') \<and>
   logger readySample = logger liveSample \<and>
   readyErrs (workers readySample) [''a'', ''b''] [] = [ErrorString ''worker a: context canceled''] \<and>
   liveErrs (workers liveSample) [''a'', ''b''] [] = [ErrorString ''worker a: context canceled''] \<and>
   map_outcome statusCode (snd (serveReady readySample [''a'', ''b''])) = Returns 503 \<and>
   map_outcome statusCode (snd (serveLive liveSample [''a'', ''b''])) = Returns 503 \<and>
   map_outcome body (snd (serveReady readySample [''a'', ''b''])) = Returns ''{\"errors\":[{}]}'' \<and>
   map_outcome body (snd (serveLive liveSample [''a'', ''b''])) = Returns ''{\"errors\":[{}]}''"
proof -
  have same: "\<forall>n \<in> set [''a'', ''b''].
      map_option Healther_Healthy (workers readySample n) =
      map_option Aliver_Alive (workers liveSample n)"
    by (simp add: readySample_def liveSample_def)
  have log: "logger readySample = logger liveSample"
    by (simp add: readySample_def liveSample_def)
  have live: "liveErrs (workers liveSample) [''a'', ''b''] [] =
      [ErrorString ''worker a: context canceled'']"
    by (simp add: liveSample_def Errorf_worker_def)
  have "snd (serveLive liveSample [''a'', ''b'']) =
      Returns \<lparr>header = [(''Content-Type'', ''application/json'')], wroteHeader = True,
        statusCode = 503, sentHeader = [(''Content-Type'', ''application/json'')],
        body = ''{\"errors\":[{}]}''\<rparr>"
    unfolding serveLive_eq live by (simp add: liveSample_def json_Marshal_errors_def)
  with readiness_matches_liveness [OF same log] live same log
  show ?thesis by simp
qed

text \<open>
  C7 as stated fails: with one worker that reports no error to either probe, both
  handlers reach the verdict ok, and the two answers differ.
\<close>

theorem readiness_response_differs:
  "liveErrs (workers (loggedSVC\<lparr>workers := [''dummy-worker'' \<mapsto> quietWorker]\<rparr>)) [''dummy-worker''] [] =
     readyErrs (workers (loggedSVC\<lparr>workers := [''dummy-worker'' \<mapsto> quietWorker]\<rparr>)) [''dummy-worker''] [] \<and>
   snd (serveLive (loggedSVC\<lparr>workers := [''dummy-worker'' \<mapsto> quietWorker]\<rparr>) [''dummy-worker'']) \<noteq>
   snd (serveReady (loggedSVC\<lparr>workers := [''dummy-worker'' \<mapsto> quietWorker]\<rparr>) [''dummy-worker''])"
  by (simp add: serveLive_eq serveReady_eq)

section \<open>Run\<close>

subsection \<open>Reading events\<close>

lemma initSteps_simps [simp]:
  "initSteps [] = []"
  "initSteps (InitStep n r # t) = (n, r) # initSteps t"
  "initSteps (Log lv m fs # t) = initSteps t"
  "initSteps (RunStarted n # t) = initSteps t"
  "initSteps (TerminateCall n a b # t) = initSteps t"
  "initSteps (WaitReturned a # t) = initSteps t"
  "initSteps (t @ t') = initSteps t @ initSteps t'"
  by (simp_all add: initSteps_def)

lemma runStarts_simps [simp]:
  "runStarts [] = []"
  "runStarts (InitStep n r # t) = runStarts t"
  "runStarts (Log lv m fs # t) = runStarts t"
  "runStarts (RunStarted n # t) = n # runStarts t"
  "runStarts (TerminateCall n a b # t) = runStarts t"
  "runStarts (WaitReturned a # t) = runStarts t"
  "runStarts (t @ t') = runStarts t @ runStarts t'"
  by (simp_all add: runStarts_def)

lemma terminateCalls_simps [simp]:
  "terminateCalls [] = []"
  "terminateCalls (InitStep n r # t) = terminateCalls t"
  "terminateCalls (Log lv m fs # t) = terminateCalls t"
  "terminateCalls (RunStarted n # t) = terminateCalls t"
  "terminateCalls (TerminateCall n a b # t) = (n, a, b) # terminateCalls t"
  "terminateCalls (WaitReturned a # t) = terminateCalls t"
  "terminateCalls (t @ t') = terminateCalls t @ terminateCalls t'"
  by (simp_all add: terminateCalls_def)

lemma waitReturns_simps [simp]:
  "waitReturns [] = []"
  "waitReturns (InitStep n r # t) = waitReturns t"
  "waitReturns (Log lv m fs # t) = waitReturns t"
  "waitReturns (RunStarted n # t) = waitReturns t"
  "waitReturns (TerminateCall n a b # t) = waitReturns t"
  "waitReturns (WaitReturned a # t) = a # waitReturns t"
  "waitReturns (t @ t') = waitReturns t @ waitReturns t'"
  by (simp_all add: waitReturns_def)

lemma terminated_simps [simp]:
  "terminated [] = []"
  "terminated (InitStep n r # t) = terminated t"
  "terminated (Log lv m fs # t) = terminated t"
  "terminated (RunStarted n # t) = terminated t"
  "terminated (TerminateCall n a b # t) = n # terminated t"
  "terminated (WaitReturned a # t) = terminated t"
  "terminated (t @ t') = terminated t @ terminated t'"
  by (simp_all add: terminated_def)

lemma initialisedIn_simps [simp]:
  "initialisedIn [] = []"
  "initialisedIn (InitStep n r # t) = (if r = None then n # initialisedIn t else initialisedIn t)"
  "initialisedIn (Log lv m fs # t) = initialisedIn t"
  "initialisedIn (RunStarted n # t) = initialisedIn t"
  "initialisedIn (TerminateCall n a b # t) = initialisedIn t"
  "initialisedIn (WaitReturned a # t) = initialisedIn t"
  "initialisedIn (t @ t') = initialisedIn t @ initialisedIn t'"
  by (simp_all add: initialisedIn_def)

subsection \<open>The initialisation loop\<close>

lemma initStep_nil_logger: "logger s = None \<Longrightarrow> initStep rdo s name = ([], Panics nilDereference)"
  by (simp add: initStep_def)

lemma initStep_unregistered:
  "logger s = Some l \<Longrightarrow> workers s name = None \<Longrightarrow>
   initStep rdo s name =
     ([Log DebugLevel ''Initializing worker'' [(''worker'', Str name)]], Panics nilDereference)"
  by (simp add: initStep_def)

lemma initStep_registered:
  "logger s = Some l \<Longrightarrow> workers s name = Some w \<Longrightarrow>
   initStep rdo s name =
     (Log DebugLevel ''Initializing worker'' [(''worker'', Str name)] #
      InitStep name (initErr rdo s name w) #
      (if initErr rdo s name w \<noteq> None
       then [Log ErrorLevel ''Could not initialize worker'' [(''worker'', Str name)]] else []),
      Returns (initErr rdo s name w))"
  by (simp add: initStep_def initErr_def Let_def result_def)

lemma initStep_Returns:
  "initStep rdo s name = (t, Returns r) \<Longrightarrow>
   logger s \<noteq> None \<and> workers s name \<noteq> None \<and> initSteps t = [(name, r)] \<and>
   runStarts t = [] \<and> terminateCalls t = [] \<and> waitReturns t = []"
  apply (cases "logger s")
   apply (simp add: initStep_nil_logger)
  apply (cases "workers s name")
   apply (simp add: initStep_unregistered)
  apply (auto simp: initStep_registered)
  done

lemma initStep_stops:
  "initStep rdo s name = (t, x) \<Longrightarrow> \<forall>r. x \<noteq> Returns r \<Longrightarrow>
   initSteps t = [] \<and> runStarts t = [] \<and> terminateCalls t = [] \<and> waitReturns t = [] \<and>
   x = Panics nilDereference"
  apply (cases "logger s")
   apply (simp add: initStep_nil_logger)
  apply (cases "workers s name")
   apply (auto simp: initStep_unregistered initStep_registered)
  done

lemma initStep_frame [simp]:
  "initStep rdo (s\<lparr>workersInitialized := x\<rparr>) name = initStep rdo s name"
  apply (cases "logger s")
   apply (simp add: initStep_nil_logger)
  apply (cases "workers s name")
   apply (simp_all add: initStep_unregistered initStep_registered initErr_def)
  done

lemma initResult_frame [simp]:
  "initResult rdo (s\<lparr>workersInitialized := x\<rparr>) name = initResult rdo s name"
  by (simp add: initResult_def)

lemma initLoop_state:
  "initLoop rdo s names = (t, s', r) \<Longrightarrow>
   s' = s\<lparr>workersInitialized := workersInitialized s @ initialisedIn t\<rparr> \<and>
   runStarts t = [] \<and> terminateCalls t = [] \<and> waitReturns t = [] \<and>
   r \<noteq> Exits \<and> r \<noteq> Blocks"
proof (induction names arbitrary: s t s' r)
  case Nil
  then show ?case by auto
next
  case (Cons name names)
  obtain t1 x where step: "initStep rdo s name = (t1, x)" by (cases "initStep rdo s name")
  show ?case
  proof (cases "\<exists>e. x = Returns e")
    case True
    then obtain e where x: "x = Returns e" by blast
    note S = initStep_Returns [OF step [unfolded x]]
    show ?thesis
    proof (cases e)
      case None
      obtain t2 s2 r2 where rest:
        "initLoop rdo (s\<lparr>workersInitialized := workersInitialized s @ [name]\<rparr>) names = (t2, s2, r2)"
        by (cases "initLoop rdo (s\<lparr>workersInitialized := workersInitialized s @ [name]\<rparr>) names")
      from Cons.prems step x None rest have eq: "t = t1 @ t2" "s' = s2" "r = r2" by simp_all
      from S None have i1: "initialisedIn t1 = [name]" by (simp add: initialisedIn_def)
      from Cons.IH [OF rest] S i1 show ?thesis unfolding eq by simp
    next
      case (Some err)
      with Cons.prems step x have eq: "t = t1" "s' = s" "r = Returns False" by simp_all
      from S Some have "initialisedIn t1 = []" by (simp add: initialisedIn_def)
      with S show ?thesis unfolding eq by simp
    qed
  next
    case False
    then have nr: "\<forall>r. x \<noteq> Returns r" by blast
    note S = initStep_stops [OF step nr]
    from Cons.prems step S have eq: "t = t1" "s' = s" "r = Panics nilDereference" by simp_all
    from S have "initialisedIn t1 = []" by (simp add: initialisedIn_def)
    with S show ?thesis unfolding eq by simp
  qed
qed

lemma initLoop_takeWhile:
  "initialisedIn (fst (initLoop rdo s names)) =
     takeWhile (\<lambda>n. initResult rdo s n = Returns None) names"
proof (induction names arbitrary: s)
  case Nil
  show ?case by simp
next
  case (Cons name names)
  obtain t1 x where step: "initStep rdo s name = (t1, x)" by (cases "initStep rdo s name")
  then have res: "initResult rdo s name = x" by (simp add: initResult_def)
  show ?case
  proof (cases "\<exists>e. x = Returns e")
    case True
    then obtain e where x: "x = Returns e" by blast
    note S = initStep_Returns [OF step [unfolded x]]
    show ?thesis
    proof (cases e)
      case None
      from S None have i1: "initialisedIn t1 = [name]" by (simp add: initialisedIn_def)
      obtain t2 s2 r2 where rest:
        "initLoop rdo (s\<lparr>workersInitialized := workersInitialized s @ [name]\<rparr>) names = (t2, s2, r2)"
        by (cases "initLoop rdo (s\<lparr>workersInitialized := workersInitialized s @ [name]\<rparr>) names")
      from Cons.IH [of "s\<lparr>workersInitialized := workersInitialized s @ [name]\<rparr>"] rest
      have "initialisedIn t2 = takeWhile (\<lambda>n. initResult rdo s n = Returns None) names" by simp
      with step x None res i1 rest show ?thesis by simp
    next
      case (Some err)
      from S Some have "initialisedIn t1 = []" by (simp add: initialisedIn_def)
      with step x Some res show ?thesis by simp
    qed
  next
    case False
    then have nr: "\<forall>r. x \<noteq> Returns r" by blast
    note S = initStep_stops [OF step nr]
    from S have "initialisedIn t1 = []" by (simp add: initialisedIn_def)
    with step S res show ?thesis by simp
  qed
qed

subsection \<open>Termination\<close>

lemma terminateOne_unregistered:
  "workers s name = None \<Longrightarrow> terminateOne s t name = ([], Panics nilDereference)"
  by (simp add: terminateOne_def)

lemma terminateOne_blocks:
  "workers s name = Some w \<Longrightarrow> Worker_Terminate w = TerminateBlocks \<Longrightarrow>
   terminateOne s t name = ([TerminateCall name t None], Blocks)"
  by (simp add: terminateOne_def)

lemma terminateOne_returns:
  "logger s = Some l \<Longrightarrow> workers s name = Some w \<Longrightarrow>
   Worker_Terminate w = TerminateReturns d e \<Longrightarrow>
   terminateOne s t name =
     (TerminateCall name t (Some (t + d, e)) #
      (if e \<noteq> None
       then [Log ErrorLevel ''Terminated with error'' [(''worker'', Str name)]] else []) @
      [Log InfoLevel ''Worker terminated'' [(''worker'', Str name)]],
      Returns (t + d))"
  by (simp add: terminateOne_def result_def)

lemma terminateAll_unregistered:
  "workers s name = None \<Longrightarrow>
   terminateAll s t (name # names) =
     (fst (terminateAll s t names),
      case snd (terminateAll s t names) of Returns _ \<Rightarrow> Panics nilDereference | x \<Rightarrow> x)"
  by (cases "terminateAll s t names")
     (simp add: terminateOne_unregistered split: outcome.splits)

lemma terminateAll_blocks:
  "workers s name = Some w \<Longrightarrow> Worker_Terminate w = TerminateBlocks \<Longrightarrow>
   terminateAll s t (name # names) = ([TerminateCall name t None], Blocks)"
  by (simp add: terminateOne_blocks)

lemma terminateAll_returns:
  "logger s = Some l \<Longrightarrow> workers s name = Some w \<Longrightarrow>
   Worker_Terminate w = TerminateReturns d e \<Longrightarrow>
   terminateAll s t (name # names) =
     after (TerminateCall name t (Some (t + d, e)) #
            (if e \<noteq> None
             then [Log ErrorLevel ''Terminated with error'' [(''worker'', Str name)]] else []) @
            [Log InfoLevel ''Worker terminated'' [(''worker'', Str name)]])
       (terminateAll s (t + d) names)"
  by (simp add: terminateOne_returns)

declare terminateAll.simps(2) [simp del]

text \<open>The three ways a round of the pass can go.\<close>

lemma terminateAll_cases:
  assumes "logger s = Some l"
  obtains
    (unregistered) "workers s name = None"
  | (blocks) w where "workers s name = Some w" "Worker_Terminate w = TerminateBlocks"
  | (returns) w d e where "workers s name = Some w" "Worker_Terminate w = TerminateReturns d e"
proof (cases "workers s name")
  case None
  then show ?thesis by (rule unregistered)
next
  case (Some w)
  then show ?thesis by (cases "Worker_Terminate w") (auto intro: blocks returns)
qed

lemma terminateAll_events:
  "logger s = Some l \<Longrightarrow>
   initSteps (fst (terminateAll s t ns)) = [] \<and> runStarts (fst (terminateAll s t ns)) = [] \<and>
   waitReturns (fst (terminateAll s t ns)) = [] \<and> snd (terminateAll s t ns) \<noteq> Exits"
proof (induction ns arbitrary: t)
  case Nil
  show ?case by (simp add: result_def)
next
  case (Cons name names)
  from Cons.prems show ?case
  proof (cases rule: terminateAll_cases [of s l name])
    case unregistered
    with Cons.IH [OF Cons.prems, of t] show ?thesis
      by (simp add: terminateAll_unregistered split: outcome.splits)
  next
    case (blocks w)
    then show ?thesis by (simp add: terminateAll_blocks)
  next
    case (returns w d e)
    with Cons.IH [OF Cons.prems, of "t + d"] Cons.prems show ?thesis
      by (simp add: terminateAll_returns)
  qed
qed

lemma terminateAll_first_start:
  "logger s = Some l \<Longrightarrow> terminateCalls (fst (terminateAll s t ns)) = (n, a, b) # cs \<Longrightarrow> a = t"
proof (induction ns arbitrary: t)
  case Nil
  then show ?case by (simp add: result_def)
next
  case (Cons name names)
  from Cons.prems(1) show ?case
  proof (cases rule: terminateAll_cases [of s l name])
    case unregistered
    with Cons.IH [OF Cons.prems(1), of t] Cons.prems(2) show ?thesis
      by (simp add: terminateAll_unregistered)
  next
    case (blocks w)
    with Cons.prems(2) show ?thesis by (simp add: terminateAll_blocks)
  next
    case (returns w d e)
    with Cons.prems show ?thesis by (simp add: terminateAll_returns)
  qed
qed

lemma sequential_Cons:
  "sequential cs \<Longrightarrow> (\<And>n a b cs'. cs = (n, a, b) # cs' \<Longrightarrow> e \<le> a) \<Longrightarrow>
   sequential ((m, t, Some (e, r)) # cs)"
  by (cases cs) auto

lemma terminateAll_sequential:
  "logger s = Some l \<Longrightarrow> sequential (terminateCalls (fst (terminateAll s t ns)))"
proof (induction ns arbitrary: t)
  case Nil
  show ?case by (simp add: result_def)
next
  case (Cons name names)
  from Cons.prems show ?case
  proof (cases rule: terminateAll_cases [of s l name])
    case unregistered
    with Cons.IH [OF Cons.prems, of t] show ?thesis
      by (simp add: terminateAll_unregistered)
  next
    case (blocks w)
    then show ?thesis by (simp add: terminateAll_blocks)
  next
    case (returns w d e)
    have "sequential ((name, t, Some (t + d, e)) # terminateCalls (fst (terminateAll s (t + d) names)))"
    proof (rule sequential_Cons)
      show "sequential (terminateCalls (fst (terminateAll s (t + d) names)))"
        using Cons.prems by (rule Cons.IH)
    next
      fix n a b cs'
      assume "terminateCalls (fst (terminateAll s (t + d) names)) = (n, a, b) # cs'"
      with Cons.prems have "a = t + d" by (rule terminateAll_first_start)
      then show "t + d \<le> a" by simp
    qed
    with returns Cons.prems show ?thesis by (auto simp: terminateAll_returns)
  qed
qed

lemma terminateAll_subseq:
  "logger s = Some l \<Longrightarrow> subseq (terminated (fst (terminateAll s t ns))) ns"
proof (induction ns arbitrary: t)
  case Nil
  show ?case by (simp add: result_def)
next
  case (Cons name names)
  from Cons.prems show ?case
  proof (cases rule: terminateAll_cases [of s l name])
    case unregistered
    with Cons.IH [OF Cons.prems, of t] show ?thesis
      by (simp add: terminateAll_unregistered list_emb_Cons)
  next
    case (blocks w)
    then show ?thesis by (simp add: terminateAll_blocks)
  next
    case (returns w d e)
    with Cons.IH [OF Cons.prems, of "t + d"] Cons.prems show ?thesis
      by (simp add: terminateAll_returns)
  qed
qed

lemma reached_Cons:
  "reached ws (n # ns) = (if terminateReturns ws n then n # reached ws ns else [n])"
  by (simp add: reached_def)

lemma reached_Nil [simp]: "reached ws [] = []"
  by (simp add: reached_def)

lemma terminateAll_reached:
  "logger s = Some l \<Longrightarrow> set ns \<subseteq> dom (workers s) \<Longrightarrow>
   terminated (fst (terminateAll s t ns)) = reached (workers s) ns \<and>
   (\<forall>v. snd (terminateAll s t ns) \<noteq> Panics v) \<and>
   (snd (terminateAll s t ns) = Blocks \<longleftrightarrow> \<not> list_all (terminateReturns (workers s)) ns)"
proof (induction ns arbitrary: t)
  case Nil
  show ?case by (simp add: result_def)
next
  case (Cons name names)
  from Cons.prems(1) show ?case
  proof (cases rule: terminateAll_cases [of s l name])
    case unregistered
    with Cons.prems(2) show ?thesis by auto
  next
    case (blocks w)
    then show ?thesis by (simp add: terminateAll_blocks reached_Cons terminateReturns_def)
  next
    case (returns w d e)
    from Cons.prems(2) have "set names \<subseteq> dom (workers s)" by simp
    from Cons.IH [OF Cons.prems(1) this, of "t + d"] returns Cons.prems(1) show ?thesis
      by (simp add: terminateAll_returns reached_Cons terminateReturns_def)
  qed
qed

lemma terminateAll_frame [simp]:
  "terminateAll (s\<lparr>TerminationGracePeriod := g\<rparr>) t ns = terminateAll s t ns"
proof (induction ns arbitrary: t)
  case Nil
  show ?case by simp
next
  case (Cons name names)
  have "terminateOne (s\<lparr>TerminationGracePeriod := g\<rparr>) t name = terminateOne s t name" for t
    by (simp add: terminateOne_def split: option.splits terminate_result.splits)
  with Cons.IH show ?case by (simp add: terminateAll.simps(2))
qed

lemma terminateAll_finish:
  "logger s = Some l \<Longrightarrow> snd (terminateAll s t ns) = Returns t' \<Longrightarrow>
   t \<le> t' \<and>
   (\<forall>c \<in> set (terminateCalls (fst (terminateAll s t ns))).
      \<exists>e r. snd (snd c) = Some (e, r) \<and> e \<le> t')"
proof (induction ns arbitrary: t)
  case Nil
  then show ?case by (simp add: result_def)
next
  case (Cons name names)
  from Cons.prems(1) show ?case
  proof (cases rule: terminateAll_cases [of s l name])
    case unregistered
    with Cons.prems(2) show ?thesis
      by (simp add: terminateAll_unregistered split: outcome.splits)
  next
    case (blocks w)
    with Cons.prems(2) show ?thesis by (simp add: terminateAll_blocks)
  next
    case (returns w d e)
    with Cons.prems have "snd (terminateAll s (t + d) names) = Returns t'"
      by (simp add: terminateAll_returns)
    from Cons.IH [OF Cons.prems(1) this] returns Cons.prems(1) show ?thesis
      by (auto simp: terminateAll_returns)
  qed
qed

lemma terminateWorkers_nil_logger:
  "logger s = None \<Longrightarrow> terminateWorkers s = ([], Panics nilDereference)"
  by (simp add: terminateWorkers_def)

lemma terminateWorkers_logged:
  "logger s = Some l \<Longrightarrow>
   terminateWorkers s =
     (Log InfoLevel ''Terminating workers down service''
        [(''termination_grace_period'', Dur (TerminationGracePeriod s))] #
      fst (terminateAll s (nat (TerminationWaitPeriod s)) (rev (workersInitialized s))) @
      (case snd (terminateAll s (nat (TerminationWaitPeriod s)) (rev (workersInitialized s))) of
         Returns t \<Rightarrow>
           [WaitReturned (waitGroupTimeout (Some t) (TerminationGracePeriod s)),
            Log InfoLevel ''All workers terminated'' []]
       | Blocks \<Rightarrow>
           [WaitReturned (waitGroupTimeout None (TerminationGracePeriod s)),
            Log InfoLevel ''All workers terminated'' []]
       | _ \<Rightarrow> []),
      case snd (terminateAll s (nat (TerminationWaitPeriod s)) (rev (workersInitialized s))) of
        Returns t \<Rightarrow> Returns ()
      | Blocks \<Rightarrow> Returns ()
      | Panics v \<Rightarrow> Panics v
      | Exits \<Rightarrow> Exits)"
  by (cases "terminateAll s (nat (TerminationWaitPeriod s)) (rev (workersInitialized s))")
     (simp add: terminateWorkers_def split: outcome.splits)

lemma terminateWorkers_calls:
  "logger s = Some l \<Longrightarrow>
   terminateCalls (fst (terminateWorkers s)) =
     terminateCalls (fst (terminateAll s (nat (TerminationWaitPeriod s)) (rev (workersInitialized s))))"
  by (simp add: terminateWorkers_logged split: outcome.splits)

lemma terminateWorkers_events:
  "initSteps (fst (terminateWorkers s)) = [] \<and> runStarts (fst (terminateWorkers s)) = []"
proof (cases "logger s")
  case None
  then show ?thesis by (simp add: terminateWorkers_nil_logger)
next
  case (Some l)
  with terminateAll_events [OF Some, of "nat (TerminationWaitPeriod s)" "rev (workersInitialized s)"]
  show ?thesis
    by (simp add: terminateWorkers_logged split: outcome.splits)
qed

lemma terminateWorkers_returns:
  assumes "logger s = Some l" and "set (workersInitialized s) \<subseteq> dom (workers s)"
  shows "snd (terminateWorkers s) = Returns () \<and>
         waitReturns (fst (terminateWorkers s)) =
           [waitGroupTimeout
              (case snd (terminateAll s (nat (TerminationWaitPeriod s)) (rev (workersInitialized s))) of
                 Returns t \<Rightarrow> Some t | _ \<Rightarrow> None)
              (TerminationGracePeriod s)]"
proof -
  from assms(2) have "set (rev (workersInitialized s)) \<subseteq> dom (workers s)" by simp
  from terminateAll_reached [OF assms(1) this, of "nat (TerminationWaitPeriod s)"]
    terminateAll_events [OF assms(1), of "nat (TerminationWaitPeriod s)" "rev (workersInitialized s)"]
  show ?thesis
    by (auto simp: terminateWorkers_logged [OF assms(1)] split: outcome.splits)
qed

lemma shutdown_nil_logger: "logger s = None \<Longrightarrow> shutdown s = ([], Panics nilDereference)"
  by (simp add: shutdown_def)

lemma shutdown_logged:
  "logger s = Some l \<Longrightarrow>
   shutdown s =
     after [Log InfoLevel ''Shutting down service''
              [(''termination_grace_period'', Dur (TerminationGracePeriod s))]]
       (andThen (terminateWorkers s)
          (\<lambda>_. ([Log InfoLevel ''Service shutdown completed'' []], Returns ())))"
  by (simp add: shutdown_def)

lemma andThen_fst_snd:
  "snd m = Returns a \<Longrightarrow> andThen m f = after (fst m) (f a)"
  by (cases m) simp

lemma andThen_not_Returns:
  "\<forall>a. snd m \<noteq> Returns a \<Longrightarrow> andThen m f = (fst m, case snd m of Panics v \<Rightarrow> Panics v | Exits \<Rightarrow> Exits | Blocks \<Rightarrow> Blocks)"
  by (cases m; cases "snd m") auto

lemma shutdown_events:
  "initSteps (fst (shutdown s)) = [] \<and> runStarts (fst (shutdown s)) = [] \<and>
   terminateCalls (fst (shutdown s)) = terminateCalls (fst (terminateWorkers s)) \<and>
   waitReturns (fst (shutdown s)) = waitReturns (fst (terminateWorkers s))"
proof (cases "logger s")
  case None
  then show ?thesis by (simp add: shutdown_nil_logger terminateWorkers_nil_logger)
next
  case (Some l)
  show ?thesis
  proof (cases "\<exists>a. snd (terminateWorkers s) = Returns a")
    case True
    then obtain a where "snd (terminateWorkers s) = Returns a" by blast
    with terminateWorkers_events [of s] show ?thesis
      by (simp add: shutdown_logged [OF Some] andThen_fst_snd)
  next
    case False
    then have "\<forall>a. snd (terminateWorkers s) \<noteq> Returns a" by blast
    with terminateWorkers_events [of s] show ?thesis
      by (simp add: shutdown_logged [OF Some] andThen_not_Returns)
  qed
qed

lemma shutdown_returns:
  assumes "logger s = Some l" and "set (workersInitialized s) \<subseteq> dom (workers s)"
  shows "snd (shutdown s) = Returns ()"
  using terminateWorkers_returns [OF assms]
  by (simp add: shutdown_logged [OF assms(1)] andThen_fst_snd)

lemma reached_all:
  "list_all (terminateReturns ws) ns \<Longrightarrow> reached ws ns = ns"
  by (simp add: reached_def list_all_iff takeWhile_eq_all_conv [THEN iffD2]
      dropWhile_eq_Nil_conv [THEN iffD2])

lemma terminateReturns_registered: "terminateReturns ws n \<Longrightarrow> n \<in> dom ws"
  by (auto simp: terminateReturns_def split: option.splits)

lemma hd_reached: "ns \<noteq> [] \<Longrightarrow> hd (reached ws ns) = hd ns"
  by (cases ns) (simp_all add: reached_Cons)

lemma terminateWorkers_reached:
  assumes "logger s = Some l" and "set (workersInitialized s) \<subseteq> dom (workers s)"
  shows "terminated (fst (terminateWorkers s)) = reached (workers s) (rev (workersInitialized s))"
proof -
  from assms(2) have "set (rev (workersInitialized s)) \<subseteq> dom (workers s)" by simp
  from terminateAll_reached [OF assms(1) this, of "nat (TerminationWaitPeriod s)"]
  show ?thesis
    using terminateWorkers_calls [OF assms(1)] by (simp add: terminated_def)
qed

text \<open>
  C10. The closures that call \<open>Terminate\<close> are deferred by one goroutine in the order of
  the initialised set and run when it returns, so they run one after the other, last in
  first out: a call starts when the one before it has returned, the names called form a
  subsequence of the reversed initialised set, and they are that reversed list up to and
  including the first worker whose \<open>Terminate\<close> never returns (all of it when every
  \<open>Terminate\<close> returns). The first worker called is the last one initialised.
\<close>

theorem terminate_in_reverse_order:
  "sequential (terminateCalls (fst (terminateWorkers s))) \<and>
   subseq (terminated (fst (terminateWorkers s))) (rev (workersInitialized s)) \<and>
   (logger s \<noteq> None \<and> set (workersInitialized s) \<subseteq> dom (workers s) \<longrightarrow>
      terminated (fst (terminateWorkers s)) = reached (workers s) (rev (workersInitialized s))) \<and>
   (logger s \<noteq> None \<and> list_all (terminateReturns (workers s)) (workersInitialized s) \<longrightarrow>
      terminated (fst (terminateWorkers s)) = rev (workersInitialized s)) \<and>
   (logger s \<noteq> None \<and> set (workersInitialized s) \<subseteq> dom (workers s) \<and>
    workersInitialized s \<noteq> [] \<longrightarrow>
      hd (terminated (fst (terminateWorkers s))) = last (workersInitialized s))"
proof (cases "logger s")
  case None
  then show ?thesis by (simp add: terminateWorkers_nil_logger)
next
  case (Some l)
  have seq: "sequential (terminateCalls (fst (terminateWorkers s)))"
    unfolding terminateWorkers_calls [OF Some] using Some by (rule terminateAll_sequential)
  have sub: "subseq (terminated (fst (terminateWorkers s))) (rev (workersInitialized s))"
    using terminateAll_subseq [OF Some, of "nat (TerminationWaitPeriod s)" "rev (workersInitialized s)"]
      terminateWorkers_calls [OF Some] by (simp add: terminated_def)
  have all: "terminated (fst (terminateWorkers s)) = rev (workersInitialized s)"
    if "list_all (terminateReturns (workers s)) (workersInitialized s)"
  proof -
    from that have "set (workersInitialized s) \<subseteq> dom (workers s)"
      by (auto simp: list_all_iff dest: terminateReturns_registered)
    from terminateWorkers_reached [OF Some this] that show ?thesis
      by (simp add: reached_all)
  qed
  have first: "hd (terminated (fst (terminateWorkers s))) = last (workersInitialized s)"
    if "set (workersInitialized s) \<subseteq> dom (workers s)" "workersInitialized s \<noteq> []"
    using terminateWorkers_reached [OF Some that(1)] that(2)
    by (simp add: hd_reached hd_rev)
  from seq sub all first terminateWorkers_reached [OF Some] show ?thesis by blast
qed

theorem terminate_in_reverse_order_witness:
  "logger (stoppingSVC\<lparr>workers := [''a'' \<mapsto> quietWorker, ''b'' \<mapsto> slowWorker]\<rparr>) \<noteq> None \<and>
   list_all (terminateReturns (workers (stoppingSVC\<lparr>workers := [''a'' \<mapsto> quietWorker, ''b'' \<mapsto> slowWorker]\<rparr>)))
     (workersInitialized (stoppingSVC\<lparr>workers := [''a'' \<mapsto> quietWorker, ''b'' \<mapsto> slowWorker]\<rparr>)) \<and>
   terminateCalls (fst (terminateWorkers (stoppingSVC\<lparr>workers := [''a'' \<mapsto> quietWorker, ''b'' \<mapsto> slowWorker]\<rparr>))) =
     [(''b'', 0, Some (7, None)), (''a'', 7, Some (7, None))] \<and>
   sequential [(''b'', 0, Some (7, None)), (''a'', 7, Some (7, None))] \<and>
   terminated (fst (terminateWorkers (stoppingSVC\<lparr>workers := [''a'' \<mapsto> quietWorker, ''b'' \<mapsto> slowWorker]\<rparr>))) =
     rev [''a'', ''b''] \<and>
   hd (terminated (fst (terminateWorkers (stoppingSVC\<lparr>workers := [''a'' \<mapsto> quietWorker, ''b'' \<mapsto> slowWorker]\<rparr>)))) = ''b''"
proof -
  let ?s = "stoppingSVC\<lparr>workers := [''a'' \<mapsto> quietWorker, ''b'' \<mapsto> slowWorker]\<rparr>"
  have l: "logger ?s \<noteq> None" by (simp add: stoppingSVC_def)
  have i: "workersInitialized ?s = [''a'', ''b'']" by (simp add: stoppingSVC_def)
  have r: "list_all (terminateReturns (workers ?s)) (workersInitialized ?s)"
    by (simp add: stoppingSVC_def terminateReturns_def slowWorker_def)
  have c: "terminateCalls (fst (terminateWorkers ?s)) =
      [(''b'', 0, Some (7, None)), (''a'', 7, Some (7, None))]"
    by (simp add: stoppingSVC_def terminateWorkers_def terminateAll.simps terminateOne_def
        slowWorker_def result_def)
  from terminate_in_reverse_order [of ?s] l r
  have "terminated (fst (terminateWorkers ?s)) = rev (workersInitialized ?s)" by blast
  with l r c i show ?thesis by simp
qed

lemma shutdown_frame:
  "terminateCalls (fst (shutdown (s\<lparr>TerminationGracePeriod := g\<rparr>))) =
   terminateCalls (fst (shutdown s))"
proof (cases "logger s")
  case None
  then show ?thesis by (simp add: shutdown_nil_logger)
next
  case (Some l)
  then have "logger (s\<lparr>TerminationGracePeriod := g\<rparr>) = Some l" by simp
  from terminateWorkers_calls [OF this] terminateWorkers_calls [OF Some]
  show ?thesis by (simp add: shutdown_events)
qed

lemma terminateWorkers_never_blocks: "snd (terminateWorkers s) \<noteq> Blocks"
proof (cases "logger s")
  case None
  then show ?thesis by (simp add: terminateWorkers_nil_logger)
next
  case (Some l)
  then show ?thesis by (simp add: terminateWorkers_logged split: outcome.splits)
qed

lemma shutdown_never_blocks: "snd (shutdown s) \<noteq> Blocks"
proof (cases "logger s")
  case None
  then show ?thesis by (simp add: shutdown_nil_logger)
next
  case (Some l)
  show ?thesis
  proof (cases "\<exists>a. snd (terminateWorkers s) = Returns a")
    case True
    then show ?thesis by (auto simp: shutdown_logged [OF Some] andThen_fst_snd)
  next
    case False
    then have "\<forall>a. snd (terminateWorkers s) \<noteq> Returns a" by blast
    with terminateWorkers_never_blocks [of s] show ?thesis
      by (cases "snd (terminateWorkers s)") (simp_all add: shutdown_logged [OF Some] andThen_not_Returns)
  qed
qed

lemma shutdown_bounded_when_registered:
  assumes "logger s \<noteq> None" and "set (workersInitialized s) \<subseteq> dom (workers s)"
  shows "snd (shutdown s) = Returns () \<and>
         (\<exists>t. waitReturns (fst (shutdown s)) = [t] \<and> t \<le> nat (TerminationGracePeriod s) \<and>
              ((\<exists>c \<in> set (terminateCalls (fst (shutdown s))).
                  case snd (snd c) of
                    None \<Rightarrow> True
                  | Some (e, r) \<Rightarrow> nat (TerminationGracePeriod s) < e) \<longrightarrow>
               t = nat (TerminationGracePeriod s)) \<and>
              (TerminationGracePeriod s \<le> 0 \<longrightarrow> t = 0)) \<and>
         terminateCalls (fst (shutdown (s\<lparr>TerminationGracePeriod := g\<rparr>))) =
           terminateCalls (fst (shutdown s))"
proof -
  from assms(1) obtain l where l: "logger s = Some l" by blast
  let ?m = "terminateAll s (nat (TerminationWaitPeriod s)) (rev (workersInitialized s))"
  let ?fin = "case snd ?m of Returns t \<Rightarrow> Some t | _ \<Rightarrow> None"
  let ?t = "waitGroupTimeout ?fin (TerminationGracePeriod s)"
  note R = terminateWorkers_returns [OF l assms(2)]
  have ret: "snd (shutdown s) = Returns ()" using l assms(2) by (rule shutdown_returns)
  have wr: "waitReturns (fst (shutdown s)) = [?t]" using R by (simp add: shutdown_events)
  have le: "?t \<le> nat (TerminationGracePeriod s)"
    by (simp add: waitGroupTimeout_def split: option.splits)
  have zero: "?t = 0" if "TerminationGracePeriod s \<le> 0"
    using that by (simp add: waitGroupTimeout_def split: option.splits)
  have late: "?t = nat (TerminationGracePeriod s)"
    if "\<exists>c \<in> set (terminateCalls (fst (shutdown s))).
          case snd (snd c) of None \<Rightarrow> True | Some (e, r) \<Rightarrow> nat (TerminationGracePeriod s) < e"
  proof (cases "snd ?m")
    case (Returns t')
    from that obtain c where c: "c \<in> set (terminateCalls (fst ?m))"
      "case snd (snd c) of None \<Rightarrow> True | Some (e, r) \<Rightarrow> nat (TerminationGracePeriod s) < e"
      by (auto simp: shutdown_events terminateWorkers_calls [OF l])
    from terminateAll_finish [OF l Returns] c(1) obtain e r where
      "snd (snd c) = Some (e, r)" "e \<le> t'" by blast
    with c(2) have "nat (TerminationGracePeriod s) < t'" by simp
    with Returns show ?thesis by (simp add: waitGroupTimeout_def)
  next
    case (Panics v)
    then show ?thesis by (simp add: waitGroupTimeout_def)
  next
    case Exits
    then show ?thesis by (simp add: waitGroupTimeout_def)
  next
    case Blocks
    then show ?thesis by (simp add: waitGroupTimeout_def)
  qed
  from ret wr le zero late shutdown_frame [where s = s and g = g] show ?thesis by blast
qed

text \<open>
  C8. The shutdown path never waits for ever, whatever the supervisor. On a supervisor
  with a logger whose initialised names are registered it returns, and its wait ends no
  later than the grace period after \<open>terminateWorkers\<close> started: at the grace period
  when a call of \<open>Terminate\<close> is still running or ends later than that, and at once when
  the grace period is not positive, also with a worker whose \<open>Terminate\<close> blocks. The
  calls of \<open>Terminate\<close> the goroutine makes do not depend on the grace period: nothing
  cancels them.
\<close>

theorem shutdown_wait_is_bounded:
  "snd (shutdown s) \<noteq> Blocks \<and>
   (logger s \<noteq> None \<and> set (workersInitialized s) \<subseteq> dom (workers s) \<longrightarrow>
      snd (shutdown s) = Returns () \<and>
      (\<exists>t. waitReturns (fst (shutdown s)) = [t] \<and> t \<le> nat (TerminationGracePeriod s) \<and>
           ((\<exists>c \<in> set (terminateCalls (fst (shutdown s))).
               case snd (snd c) of
                 None \<Rightarrow> True
               | Some (e, r) \<Rightarrow> nat (TerminationGracePeriod s) < e) \<longrightarrow>
            t = nat (TerminationGracePeriod s)) \<and>
           (TerminationGracePeriod s \<le> 0 \<longrightarrow> t = 0))) \<and>
   terminateCalls (fst (shutdown (s\<lparr>TerminationGracePeriod := g\<rparr>))) =
     terminateCalls (fst (shutdown s))"
  using shutdown_never_blocks [of s] shutdown_bounded_when_registered [of s g]
    shutdown_frame [where s = s and g = g]
  by blast

theorem shutdown_wait_is_bounded_witness:
  "logger stoppingSVC \<noteq> None \<and> set (workersInitialized stoppingSVC) \<subseteq> dom (workers stoppingSVC) \<and>
   TerminationGracePeriod stoppingSVC = 0 \<and>
   Worker_Terminate (the (workers stoppingSVC ''a'')) = TerminateBlocks \<and>
   snd (shutdown stoppingSVC) = Returns () \<and>
   waitReturns (fst (shutdown stoppingSVC)) = [0] \<and>
   terminateCalls (fst (shutdown stoppingSVC)) = [(''b'', 0, Some (7, None)), (''a'', 7, None)] \<and>
   terminateCalls (fst (shutdown (stoppingSVC\<lparr>TerminationGracePeriod := 100\<rparr>))) =
     [(''b'', 0, Some (7, None)), (''a'', 7, None)]"
proof -
  have l: "logger stoppingSVC \<noteq> None" by (simp add: stoppingSVC_def)
  have d: "set (workersInitialized stoppingSVC) \<subseteq> dom (workers stoppingSVC)"
    by (simp add: stoppingSVC_def)
  have g: "TerminationGracePeriod stoppingSVC = 0" by (simp add: stoppingSVC_def)
  have a: "Worker_Terminate (the (workers stoppingSVC ''a'')) = TerminateBlocks"
    by (simp add: stoppingSVC_def stuckWorker_def)
  have c: "terminateCalls (fst (shutdown stoppingSVC)) =
      [(''b'', 0, Some (7, None)), (''a'', 7, None)]"
    by (simp add: stoppingSVC_def shutdown_def terminateWorkers_def terminateAll.simps
        terminateOne_def slowWorker_def stuckWorker_def result_def)
  from shutdown_wait_is_bounded [of stoppingSVC 100] l d g a c show ?thesis by auto
qed

subsection \<open>The run phase and the whole of Run\<close>

lemma recoverWait_logged:
  "logger s = Some l \<Longrightarrow>
   recoverWait s name r =
     (case r of
        None \<Rightarrow> ([], Returns None)
      | Some (PanicError err) \<Rightarrow>
          ([Log ErrorLevel ''recover panic'' [(''worker'', Str name), (''error'', Err err)]],
           Returns (Some err))
      | Some (PanicValue v) \<Rightarrow> ([], Returns (Some (ErrorString v))))"
  by (simp add: recoverWait_def result_def split: option.splits panic_value.splits)

lemma workerUnit_logged:
  "logger s = Some l \<Longrightarrow>
   workerUnit s name w =
     (case Worker_Run w of
        RunBlocks \<Rightarrow> ([], Blocks)
      | RunReturns None \<Rightarrow> ([], Returns None)
      | RunReturns (Some err) \<Rightarrow> ([], Returns (Some (Errorf_exited name err)))
      | RunPanics (PanicError err) \<Rightarrow>
          ([Log ErrorLevel ''recover panic'' [(''worker'', Str name), (''error'', Err err)]],
           Returns (Some err))
      | RunPanics (PanicValue v) \<Rightarrow> ([], Returns (Some (ErrorString v))))"
  by (simp add: workerUnit_def recoverWait_logged result_def
      split: run_result.splits option.splits panic_value.splits)

lemma workerUnit_events:
  "logger s = Some l \<Longrightarrow>
   initSteps (fst (workerUnit s name w)) = [] \<and> runStarts (fst (workerUnit s name w)) = [] \<and>
   terminateCalls (fst (workerUnit s name w)) = [] \<and> waitReturns (fst (workerUnit s name w)) = []"
  by (simp add: workerUnit_logged split: run_result.splits option.splits panic_value.splits)

lemma Errorf_exited_Canceled [simp]:
  "errors_Is_Canceled (Errorf_exited name e) = errors_Is_Canceled e"
  by (simp add: Errorf_exited_def)

lemma unitEvents_events:
  "logger s = Some l \<Longrightarrow>
   initSteps (unitEvents s ks) = [] \<and> terminateCalls (unitEvents s ks) = [] \<and>
   waitReturns (unitEvents s ks) = [] \<and>
   runStarts (unitEvents s ks) = filter (\<lambda>n. workers s n \<noteq> None) ks"
proof (induction ks)
  case Nil
  show ?case by (simp add: unitEvents_def)
next
  case (Cons k ks)
  from Cons.IH [OF Cons.prems] workerUnit_events [OF Cons.prems]
  show ?case by (cases "workers s k") (simp_all add: unitEvents_def)
qed

lemma runPhase_logged:
  "logger s = Some l \<Longrightarrow>
   runPhase s ks pick =
     (unitEvents s ks @
      (case pick of
         None \<Rightarrow> []
       | Some (ErrorReceived err) \<Rightarrow>
           (if errors_Is_Canceled err
            then [Log WarnLevel ''Worker context canceled'' [(''error'', Err err)]]
            else [Log FatalLevel ''Worker Init/Run failure'' [(''error'', Err err)]])
       | Some (SignalReceived sig) \<Rightarrow>
           [Log WarnLevel ''Caught signal'' [(''signal'', Str (signal_String sig))]]
       | Some AllWorkersFinished \<Rightarrow> [Log InfoLevel ''All workers have finished'' []]),
      case pick of
        None \<Rightarrow> Blocks
      | Some (ErrorReceived err) \<Rightarrow> if errors_Is_Canceled err then Returns () else Exits
      | Some c \<Rightarrow> Returns ())"
  by (simp add: runPhase_def unitEvents_def result_def split: option.splits select_case.splits)

lemma runPhase_events:
  "logger s = Some l \<Longrightarrow>
   initSteps (fst (runPhase s ks pick)) = [] \<and> terminateCalls (fst (runPhase s ks pick)) = [] \<and>
   waitReturns (fst (runPhase s ks pick)) = []"
  using unitEvents_events [of s l ks]
  by (simp add: runPhase_logged split: option.splits select_case.splits)

lemma Run_nil_logger: "logger s = None \<Longrightarrow> Run rdo ks pick s = ([], s, Panics nilDereference)"
  by (simp add: Run_def)

lemma Run_logged:
  "logger s = Some l \<Longrightarrow> initLoop rdo s (workersAdded s) = (t1, s1, r1) \<Longrightarrow>
   Run rdo ks pick s =
     (Log InfoLevel ''Starting up service'' [] # t1 @ fst (afterInit s1 ks pick r1) @
        fst (deferred (snd (afterInit s1 ks pick r1)) (shutdown s1)),
      s1, snd (deferred (snd (afterInit s1 ks pick r1)) (shutdown s1)))"
  by (simp add: Run_def afterInit_def split: prod.splits)

lemma deferred_events:
  "fst (deferred r d) = (case r of Returns _ \<Rightarrow> fst d | Panics v \<Rightarrow> fst d | _ \<Rightarrow> [])"
  by (cases d; cases r; cases "snd d") (auto simp: deferred_def)

lemma initLoop_logger:
  "initLoop rdo s names = (t, s', r) \<Longrightarrow> logger s' = logger s \<and> workers s' = workers s"
  by (drule initLoop_state) (cases s, auto)

lemma initSteps_empty: "initSteps t = [] \<Longrightarrow> initialisedIn t = []"
  by (simp add: initialisedIn_def)

lemma afterInit_events:
  "logger s1 = Some l \<Longrightarrow>
   initSteps (fst (afterInit s1 ks pick r1)) = [] \<and>
   terminateCalls (fst (afterInit s1 ks pick r1)) = [] \<and>
   waitReturns (fst (afterInit s1 ks pick r1)) = []"
  using runPhase_events [of s1 l ks pick]
  by (simp add: afterInit_def result_def split: outcome.splits bool.splits)

lemma Run_initialised:
  "Run rdo ks pick s = (t, s', r) \<Longrightarrow>
   workersInitialized s' = workersInitialized s @ initialisedIn t \<and>
   initialisedIn t = initialisedIn (fst (initLoop rdo s (workersAdded s)))"
proof (cases "logger s")
  case None
  assume "Run rdo ks pick s = (t, s', r)"
  moreover from None have "initialisedIn (fst (initLoop rdo s (workersAdded s))) = []"
    by (cases "workersAdded s") (simp_all add: initLoop_takeWhile initResult_def initStep_nil_logger)
  ultimately show ?thesis using None by (simp add: Run_nil_logger)
next
  case (Some l)
  assume run: "Run rdo ks pick s = (t, s', r)"
  obtain t1 s1 r1 where loop: "initLoop rdo s (workersAdded s) = (t1, s1, r1)"
    by (cases "initLoop rdo s (workersAdded s)")
  note st = initLoop_state [OF loop]
  from initLoop_logger [OF loop] Some have l1: "logger s1 = Some l" by simp
  have "initSteps (fst (deferred (snd (afterInit s1 ks pick r1)) (shutdown s1))) = []"
    using shutdown_events [of s1] by (simp add: deferred_events split: outcome.splits)
  with afterInit_events [OF l1, of ks pick r1]
  have "initialisedIn t = initialisedIn t1"
    using run unfolding Run_logged [OF Some loop]
    by (auto simp: initSteps_empty)
  moreover from run have "s' = s1" unfolding Run_logged [OF Some loop] by simp
  ultimately show ?thesis using st loop by simp
qed

text \<open>
  C4. When \<open>Run\<close> is over, the initialised set is what it was before, followed by exactly
  the names whose init step returned nil, in the order of their registration: they are
  the registered names up to the first one whose init step does not return nil. With
  pairwise distinct registered names no name is appended twice.
\<close>

theorem initialized_set_is_successful_prefix:
  "Run rdo ks pick s = (t, s', r) \<Longrightarrow>
   workersInitialized s' = workersInitialized s @ initialisedIn t \<and>
   initialisedIn t = takeWhile (\<lambda>n. initResult rdo s n = Returns None) (workersAdded s) \<and>
   prefix (initialisedIn t) (workersAdded s) \<and>
   (distinct (workersAdded s) \<longrightarrow> distinct (initialisedIn t))"
proof -
  assume run: "Run rdo ks pick s = (t, s', r)"
  note R = Run_initialised [OF run]
  have tw: "initialisedIn t = takeWhile (\<lambda>n. initResult rdo s n = Returns None) (workersAdded s)"
    using R by (simp add: initLoop_takeWhile)
  have "prefix (initialisedIn t) (workersAdded s)"
    unfolding tw by (rule takeWhile_is_prefix)
  moreover have "distinct (initialisedIn t)" if "distinct (workersAdded s)"
    unfolding tw using that by (rule distinct_takeWhile)
  ultimately show ?thesis using R tw by blast
qed

lemma initResult_Returns:
  "initResult rdo s name = Returns r \<Longrightarrow>
   \<exists>l w. logger s = Some l \<and> workers s name = Some w \<and> initErr rdo s name w = r"
  apply (cases "logger s")
   apply (simp add: initResult_def initStep_nil_logger)
  apply (cases "workers s name")
   apply (auto simp: initResult_def initStep_unregistered initStep_registered)
  done

lemma initLoop_succeeds:
  "initResult rdo s name = Returns None \<Longrightarrow>
   initLoop rdo s (name # names) =
     (case initLoop rdo (s\<lparr>workersInitialized := workersInitialized s @ [name]\<rparr>) names of
        (t', s', r) \<Rightarrow>
          (Log DebugLevel ''Initializing worker'' [(''worker'', Str name)] # InitStep name None # t',
           s', r))"
  by (drule initResult_Returns) (auto simp: initStep_registered)

lemma initLoop_fails:
  "initResult rdo s name = Returns (Some e) \<Longrightarrow>
   initLoop rdo s (name # names) =
     ([Log DebugLevel ''Initializing worker'' [(''worker'', Str name)], InitStep name (Some e),
       Log ErrorLevel ''Could not initialize worker'' [(''worker'', Str name)]],
      s, Returns False)"
  by (drule initResult_Returns) (auto simp: initStep_registered)

lemma initLoop_fails_at:
  "\<forall>n \<in> set pre. initResult rdo s n = Returns None \<Longrightarrow>
   initResult rdo s W = Returns (Some e) \<Longrightarrow>
   \<exists>t1. initLoop rdo s (pre @ W # post) =
          (t1 @ [Log ErrorLevel ''Could not initialize worker'' [(''worker'', Str W)]],
           s\<lparr>workersInitialized := workersInitialized s @ pre\<rparr>, Returns False) \<and>
        initSteps t1 = map (\<lambda>n. (n, None)) pre @ [(W, Some e)] \<and>
        runStarts t1 = [] \<and> terminateCalls t1 = [] \<and> waitReturns t1 = []"
proof (induction pre arbitrary: s)
  case Nil
  then show ?case by (simp add: initLoop_fails del: initLoop.simps)
next
  case (Cons p pre)
  let ?s = "s\<lparr>workersInitialized := workersInitialized s @ [p]\<rparr>"
  from Cons.prems have p: "initResult rdo s p = Returns None" by simp
  from Cons.prems have "\<forall>n \<in> set pre. initResult rdo ?s n = Returns None"
    and "initResult rdo ?s W = Returns (Some e)" by simp_all
  from Cons.IH [OF this] obtain t1 where
    t1: "initLoop rdo ?s (pre @ W # post) =
          (t1 @ [Log ErrorLevel ''Could not initialize worker'' [(''worker'', Str W)]],
           ?s\<lparr>workersInitialized := workersInitialized ?s @ pre\<rparr>, Returns False)"
      "initSteps t1 = map (\<lambda>n. (n, None)) pre @ [(W, Some e)]"
      "runStarts t1 = []" "terminateCalls t1 = []" "waitReturns t1 = []"
    by blast
  let ?t = "Log DebugLevel ''Initializing worker'' [(''worker'', Str p)] # InitStep p None # t1"
  have "initLoop rdo s ((p # pre) @ W # post) =
          (?t @ [Log ErrorLevel ''Could not initialize worker'' [(''worker'', Str W)]],
           s\<lparr>workersInitialized := workersInitialized s @ p # pre\<rparr>, Returns False)"
    using initLoop_succeeds [OF p, of "pre @ W # post"] t1(1) by simp
  moreover have "initSteps ?t = map (\<lambda>n. (n, None)) (p # pre) @ [(W, Some e)]"
    using t1(2) by simp
  moreover have "runStarts ?t = [] \<and> terminateCalls ?t = [] \<and> waitReturns ?t = []"
    using t1 by simp
  ultimately show ?case by blast
qed

text \<open>
  C3. Let the init step of \<open>W\<close> return an error (from \<open>retry.Do\<close> when a retry policy
  is attached) after the init steps of the workers registered before it returned nil.
  Then the init steps that ran are theirs and \<open>W\<close>'s, none of a worker registered after
  \<open>W\<close>; no run step is started; the initialised set has grown by the workers before
  \<open>W\<close>; right after the error log \<open>Run\<close> is in its shutdown path and ends as that ends.
  The workers terminated are among those initialised before \<open>W\<close>, in reverse order; with
  the initialised names registered, \<open>Run\<close> returns and they are terminated up to the
  first whose \<open>Terminate\<close> never returns.
\<close>

theorem failed_init_stops_startup:
  assumes "workersAdded s = pre @ W # post"
    and "\<forall>n \<in> set pre. initResult rdo s n = Returns None"
    and "initResult rdo s W = Returns (Some e)"
    and "Run rdo ks pick s = (t, s', r)"
  shows "initSteps t = map (\<lambda>n. (n, None)) pre @ [(W, Some e)] \<and>
         runStarts t = [] \<and>
         workersInitialized s' = workersInitialized s @ pre \<and>
         (\<exists>t0. t = t0 @ [Log ErrorLevel ''Could not initialize worker'' [(''worker'', Str W)]] @
                   fst (shutdown s') \<and> terminateCalls t0 = []) \<and>
         r = snd (shutdown s') \<and>
         subseq (terminated t) (rev (workersInitialized s @ pre)) \<and>
         (set (workersInitialized s) \<subseteq> dom (workers s) \<longrightarrow>
            r = Returns () \<and>
            terminated t = reached (workers s) (rev (workersInitialized s @ pre)))"
proof -
  from initResult_Returns [OF assms(3)] obtain l where l: "logger s = Some l" by blast
  let ?s1 = "s\<lparr>workersInitialized := workersInitialized s @ pre\<rparr>"
  from initLoop_fails_at [OF assms(2,3), of post] assms(1) obtain t1 where
    loop: "initLoop rdo s (workersAdded s) =
          (t1 @ [Log ErrorLevel ''Could not initialize worker'' [(''worker'', Str W)]],
           ?s1, Returns False)" and
    t1: "initSteps t1 = map (\<lambda>n. (n, None)) pre @ [(W, Some e)]"
      "runStarts t1 = []" "terminateCalls t1 = []" "waitReturns t1 = []"
    by auto
  have l1: "logger ?s1 = Some l" using l by simp
  let ?t0 = "Log InfoLevel ''Starting up service'' [] # t1"
  from assms(4) have run:
    "t = ?t0 @ [Log ErrorLevel ''Could not initialize worker'' [(''worker'', Str W)]] @
         fst (shutdown ?s1)" "s' = ?s1" "r = snd (shutdown ?s1)"
    unfolding Run_logged [OF l loop]
    by (auto simp: afterInit_def result_def deferred_def)
  note ev = shutdown_events [of ?s1]
  have steps: "initSteps t = map (\<lambda>n. (n, None)) pre @ [(W, Some e)]"
    unfolding run(1) using t1 ev by simp
  have starts: "runStarts t = []" unfolding run(1) using t1 ev by simp
  have calls: "terminated t = terminated (fst (terminateWorkers ?s1))"
    unfolding run(1) using t1 ev by (simp add: terminated_def)
  have sub: "subseq (terminated t) (rev (workersInitialized s @ pre))"
    unfolding calls
    using terminateAll_subseq [OF l1, of "nat (TerminationWaitPeriod ?s1)" "rev (workersInitialized ?s1)"]
      terminateWorkers_calls [OF l1] by (simp add: terminated_def)
  have reg: "r = Returns () \<and> terminated t = reached (workers s) (rev (workersInitialized s @ pre))"
    if "set (workersInitialized s) \<subseteq> dom (workers s)"
  proof -
    have "set pre \<subseteq> dom (workers s)"
      using assms(2) by (auto dest!: bspec initResult_Returns)
    with that have d: "set (workersInitialized ?s1) \<subseteq> dom (workers ?s1)" by simp
    from shutdown_returns [OF l1 d] terminateWorkers_reached [OF l1 d] run(3) calls
    show ?thesis by simp
  qed
  have "\<exists>t0. t = t0 @ [Log ErrorLevel ''Could not initialize worker'' [(''worker'', Str W)]] @
                   fst (shutdown s') \<and> terminateCalls t0 = []"
    using run(1,2) t1(3) by (intro exI [of _ ?t0]) simp
  with steps starts run(2,3) sub reg show ?thesis by simp
qed

lemma initLoop_registered:
  assumes "initLoop rdo s names = (t, s', r)" and "set (workersInitialized s) \<subseteq> dom (workers s)"
  shows "set (workersInitialized s') \<subseteq> dom (workers s')"
proof -
  note st = initLoop_state [OF assms(1)]
  have "initialisedIn t = takeWhile (\<lambda>n. initResult rdo s n = Returns None) names"
    using initLoop_takeWhile [of rdo s names] assms(1) by simp
  then have "set (initialisedIn t) \<subseteq> dom (workers s)"
    by (auto dest!: set_takeWhileD initResult_Returns)
  moreover from st have "workersInitialized s' = workersInitialized s @ initialisedIn t"
    and "workers s' = workers s" by (cases s, simp)+
  ultimately show ?thesis using assms(2) by simp
qed

text \<open>
  C1, as the code has it. Let every registered worker be initialised and let the select
  statement receive the error \<open>err\<close> that the goroutine of a worker sent. If \<open>err\<close> is
  a cancellation (\<open>errors.Is(err, context.Canceled)\<close>), \<open>Run\<close> logs a warning, runs its
  shutdown path, in which \<open>Terminate\<close> is called on the initialised workers in reverse
  order up to the first whose \<open>Terminate\<close> never returns, and returns. If it is any
  other error, \<open>Run\<close> logs it at fatal level and the process exits: no shutdown path, no
  \<open>Terminate\<close>, no return. The error of a returned \<open>Run\<close> is wrapped with the worker's
  name and is a cancellation exactly when the returned error is; a recovered panic that
  carried no error is never one.
\<close>

theorem received_error_decides_shutdown:
  assumes "logger s \<noteq> None"
    and "initLoop rdo s (workersAdded s) = (t1, s1, Returns True)"
    and "set (workersInitialized s) \<subseteq> dom (workers s)"
    and "workers s n = Some w" and "snd (workerUnit s n w) = Returns (Some err)"
    and "Run rdo ks (Some (ErrorReceived err)) s = (t, s', r)"
  shows "(errors_Is_Canceled err \<longrightarrow>
            r = Returns () \<and>
            (\<exists>t0. t = t0 @ [Log WarnLevel ''Worker context canceled'' [(''error'', Err err)]] @
                      fst (shutdown s') \<and> terminateCalls t0 = []) \<and>
            terminated t = reached (workers s) (rev (workersInitialized s'))) \<and>
         (\<not> errors_Is_Canceled err \<longrightarrow>
            r = Exits \<and> terminated t = [] \<and> waitReturns t = [] \<and>
            (\<exists>t0. t = t0 @ [Log FatalLevel ''Worker Init/Run failure'' [(''error'', Err err)]])) \<and>
         (\<forall>e. Worker_Run w = RunReturns (Some e) \<longrightarrow>
            err = Errorf_exited n e \<and> errors_Is_Canceled err = errors_Is_Canceled e) \<and>
         (\<forall>e. Worker_Run w = RunPanics (PanicError e) \<longrightarrow> err = e) \<and>
         (\<forall>v. Worker_Run w = RunPanics (PanicValue v) \<longrightarrow>
            err = ErrorString v \<and> \<not> errors_Is_Canceled err)"
proof -
  from assms(1) obtain l where l: "logger s = Some l" by blast
  note loop = assms(2)
  from initLoop_logger [OF loop] l have l1: "logger s1 = Some l" and w1: "workers s1 = workers s"
    by simp_all
  note d1 = initLoop_registered [OF loop assms(3)]
  note st = initLoop_state [OF loop]
  note ue = unitEvents_events [OF l1, of ks]
  let ?t0 = "Log InfoLevel ''Starting up service'' [] # t1 @ unitEvents s1 ks"
  have quiet: "terminateCalls ?t0 = []" "waitReturns ?t0 = []"
    using st ue by simp_all
  have cancel: "r = Returns () \<and>
      (\<exists>t0. t = t0 @ [Log WarnLevel ''Worker context canceled'' [(''error'', Err err)]] @
                fst (shutdown s') \<and> terminateCalls t0 = []) \<and>
      terminated t = reached (workers s) (rev (workersInitialized s'))"
    if c: "errors_Is_Canceled err"
  proof -
    from assms(6) c have run:
      "t = ?t0 @ [Log WarnLevel ''Worker context canceled'' [(''error'', Err err)]] @
             fst (shutdown s1)" "s' = s1" "r = snd (shutdown s1)"
      unfolding Run_logged [OF l loop]
      by (auto simp: afterInit_def runPhase_logged [OF l1] deferred_def)
    have "terminated t = terminated (fst (terminateWorkers s1))"
      unfolding run(1) using quiet shutdown_events [of s1] by (simp add: terminated_def)
    with terminateWorkers_reached [OF l1 d1] w1 run(2)
    have "terminated t = reached (workers s) (rev (workersInitialized s'))" by simp
    moreover from shutdown_returns [OF l1 d1] run(3) have "r = Returns ()" by simp
    moreover have "\<exists>t0. t = t0 @ [Log WarnLevel ''Worker context canceled'' [(''error'', Err err)]] @
                fst (shutdown s') \<and> terminateCalls t0 = []"
      using run(1,2) quiet(1) by (intro exI [of _ ?t0]) simp
    ultimately show ?thesis by simp
  qed
  have fatal: "r = Exits \<and> terminated t = [] \<and> waitReturns t = [] \<and>
      (\<exists>t0. t = t0 @ [Log FatalLevel ''Worker Init/Run failure'' [(''error'', Err err)]])"
    if c: "\<not> errors_Is_Canceled err"
  proof -
    from assms(6) c have run:
      "t = ?t0 @ [Log FatalLevel ''Worker Init/Run failure'' [(''error'', Err err)]]"
      "r = Exits"
      unfolding Run_logged [OF l loop]
      by (auto simp: afterInit_def runPhase_logged [OF l1] deferred_def)
    from run quiet show ?thesis by (auto simp: terminated_def)
  qed
  have sent: "(\<forall>e. Worker_Run w = RunReturns (Some e) \<longrightarrow>
            err = Errorf_exited n e \<and> errors_Is_Canceled err = errors_Is_Canceled e) \<and>
         (\<forall>e. Worker_Run w = RunPanics (PanicError e) \<longrightarrow> err = e) \<and>
         (\<forall>v. Worker_Run w = RunPanics (PanicValue v) \<longrightarrow>
            err = ErrorString v \<and> \<not> errors_Is_Canceled err)"
    using assms(5) by (auto simp: workerUnit_logged [OF l])
  from cancel fatal sent show ?thesis by blast
qed

lemma sample_fields [simp]:
  "Worker_Init slowWorker k = None" "Worker_Terminate slowWorker = TerminateReturns 7 None"
  "Worker_Run slowWorker = RunReturns None"
  "Worker_Init flakyWorker k = (if k = 0 then Some (ErrorString ''not yet'') else None)"
  "Worker_Terminate flakyWorker = TerminateReturns 0 None"
  "Worker_Init brokenWorker k = Some (ErrorString ''no database'')"
  "Worker_Init boomWorker k = None" "Worker_Run boomWorker = RunReturns (Some (ErrorString ''boom''))"
  "Worker_Terminate boomWorker = TerminateReturns 0 None"
  "Worker_Init canceledWorker k = None" "Worker_Run canceledWorker = RunReturns (Some Canceled)"
  "Worker_Terminate canceledWorker = TerminateReturns 0 None"
  "Worker_Init servingWorker k = None" "Worker_Run servingWorker = RunBlocks"
  "Worker_Terminate servingWorker = TerminateReturns 0 None"
  by (simp_all add: slowWorker_def flakyWorker_def brokenWorker_def boomWorker_def
      canceledWorker_def servingWorker_def)

subsection \<open>Panics of a run step\<close>

lemma recovered_error_ignores_name:
  "Worker_Run w = RunPanics (PanicValue v) \<Longrightarrow>
   workerUnit s name w = ([], Returns (Some (ErrorString v)))"
  by (simp add: workerUnit_def recoverWait_def result_def)

text \<open>
  C2. A panic of a worker's \<open>Run\<close> is recovered by the deferred \<open>recoverWait\<close> and an
  error is sent on the channel. That error does not carry the worker's name: a panic
  value that is an error is sent as it is, and any other value as \<open>fmt.Errorf("%v", r)\<close>
  (\<open>recovered_error_ignores_name\<close>). Evaluated for a worker that panics with the value
  \<open>boom\<close>: the error sent is \<open>boom\<close> under either name, while the same worker returning
  the error \<open>boom\<close> sends \<open>worker dummy-worker exited: boom\<close>.
\<close>

theorem recovered_panic_loses_worker_name:
  "snd (workerUnit loggedSVC ''dummy-worker'' (quietWorker\<lparr>Worker_Run := RunPanics (PanicValue ''boom'')\<rparr>)) =
     Returns (Some (ErrorString ''boom'')) \<and>
   snd (workerUnit loggedSVC ''other-worker'' (quietWorker\<lparr>Worker_Run := RunPanics (PanicValue ''boom'')\<rparr>)) =
     Returns (Some (ErrorString ''boom'')) \<and>
   Error (ErrorString ''boom'') = ''boom'' \<and>
   \<not> sublist ''dummy-worker'' (Error (ErrorString ''boom'')) \<and>
   snd (workerUnit loggedSVC ''dummy-worker''
         (quietWorker\<lparr>Worker_Run := RunPanics (PanicError (ErrorString ''boom''))\<rparr>)) =
     Returns (Some (ErrorString ''boom'')) \<and>
   snd (workerUnit loggedSVC ''dummy-worker''
         (quietWorker\<lparr>Worker_Run := RunReturns (Some (ErrorString ''boom''))\<rparr>)) =
     Returns (Some (WrapError ''worker dummy-worker exited: boom'' (ErrorString ''boom'')))"
  by (simp add: workerUnit_def recoverWait_def result_def Errorf_exited_def sublist_Cons_right)

text \<open>
  C1 as stated fails. Worker \<open>b\<close> returns the error \<open>boom\<close> from \<open>Run\<close> while worker
  \<open>a\<close> keeps running: the error case of the select statement is ready (and the wait
  group cannot reach zero), \<open>Run\<close> logs the error at fatal level and the process exits
  with both workers initialised and no \<open>Terminate\<close> called.
\<close>

theorem worker_failure_exits_without_shutdown:
  "workers failingSVC ''b'' = Some boomWorker \<and>
   Worker_Run boomWorker = RunReturns (Some (ErrorString ''boom'')) \<and>
   selectReady (failingSVC\<lparr>workersInitialized := [''a'', ''b'']\<rparr>) [''b'', ''a'']
     (ErrorReceived (Errorf_exited ''b'' (ErrorString ''boom''))) \<and>
   \<not> selectReady (failingSVC\<lparr>workersInitialized := [''a'', ''b'']\<rparr>) [''b'', ''a'']
     AllWorkersFinished \<and>
   Run retryTwice [''b'', ''a''] (Some (ErrorReceived (Errorf_exited ''b'' (ErrorString ''boom''))))
       failingSVC =
     ([Log InfoLevel ''Starting up service'' [],
       Log DebugLevel ''Initializing worker'' [(''worker'', Str ''a'')], InitStep ''a'' None,
       Log DebugLevel ''Initializing worker'' [(''worker'', Str ''b'')], InitStep ''b'' None,
       RunStarted ''b'', RunStarted ''a'',
       Log FatalLevel ''Worker Init/Run failure''
         [(''error'', Err (WrapError ''worker b exited: boom'' (ErrorString ''boom'')))]],
      failingSVC\<lparr>workersInitialized := [''a'', ''b'']\<rparr>, Exits)"
  by (simp add: failingSVC_def Run_def initStep_def runPhase_def workerUnit_def recoverWait_def
      deferred_def result_def Errorf_exited_def selectReady_def doneWithoutReceiver_def)

lemma failing_loop:
  "initLoop retryTwice failingSVC (workersAdded failingSVC) =
     ([Log DebugLevel ''Initializing worker'' [(''worker'', Str ''a'')], InitStep ''a'' None,
       Log DebugLevel ''Initializing worker'' [(''worker'', Str ''b'')], InitStep ''b'' None],
      failingSVC\<lparr>workersInitialized := [''a'', ''b'']\<rparr>, Returns True)"
  by (simp add: failingSVC_def initStep_def result_def)

lemma canceling_loop:
  "initLoop retryTwice cancelingSVC (workersAdded cancelingSVC) =
     ([Log DebugLevel ''Initializing worker'' [(''worker'', Str ''a'')], InitStep ''a'' None,
       Log DebugLevel ''Initializing worker'' [(''worker'', Str ''b'')], InitStep ''b'' None],
      cancelingSVC\<lparr>workersInitialized := [''a'', ''b'']\<rparr>, Returns True)"
  by (simp add: cancelingSVC_def initStep_def result_def)

lemma Run_state:
  "logger s \<noteq> None \<Longrightarrow> initLoop rdo s (workersAdded s) = (t1, s1, r1) \<Longrightarrow>
   Run rdo ks pick s = (t, s', r) \<Longrightarrow> s' = s1"
  by (auto simp: Run_logged)

theorem received_error_decides_shutdown_witness:
  "logger cancelingSVC \<noteq> None \<and>
   snd (snd (initLoop retryTwice cancelingSVC (workersAdded cancelingSVC))) = Returns True \<and>
   set (workersInitialized cancelingSVC) \<subseteq> dom (workers cancelingSVC) \<and>
   workers cancelingSVC ''b'' = Some canceledWorker \<and>
   snd (workerUnit cancelingSVC ''b'' canceledWorker) = Returns (Some (Errorf_exited ''b'' Canceled)) \<and>
   errors_Is_Canceled (Errorf_exited ''b'' Canceled) \<and>
   snd (snd (Run retryTwice [''b'', ''a''] (Some (ErrorReceived (Errorf_exited ''b'' Canceled)))
               cancelingSVC)) = Returns () \<and>
   terminated (fst (Run retryTwice [''b'', ''a''] (Some (ErrorReceived (Errorf_exited ''b'' Canceled)))
               cancelingSVC)) = [''b'', ''a''] \<and>
   logger failingSVC \<noteq> None \<and>
   snd (snd (initLoop retryTwice failingSVC (workersAdded failingSVC))) = Returns True \<and>
   set (workersInitialized failingSVC) \<subseteq> dom (workers failingSVC) \<and>
   workers failingSVC ''b'' = Some boomWorker \<and>
   snd (workerUnit failingSVC ''b'' boomWorker) =
     Returns (Some (Errorf_exited ''b'' (ErrorString ''boom''))) \<and>
   \<not> errors_Is_Canceled (Errorf_exited ''b'' (ErrorString ''boom'')) \<and>
   snd (snd (Run retryTwice [''b'', ''a'']
               (Some (ErrorReceived (Errorf_exited ''b'' (ErrorString ''boom'')))) failingSVC)) = Exits \<and>
   terminated (fst (Run retryTwice [''b'', ''a'']
               (Some (ErrorReceived (Errorf_exited ''b'' (ErrorString ''boom'')))) failingSVC)) = []"
proof -
  let ?ce = "Errorf_exited ''b'' Canceled" and ?be = "Errorf_exited ''b'' (ErrorString ''boom'')"
  have cl: "logger cancelingSVC \<noteq> None" and fl: "logger failingSVC \<noteq> None"
    by (simp_all add: cancelingSVC_def failingSVC_def)
  have cd: "set (workersInitialized cancelingSVC) \<subseteq> dom (workers cancelingSVC)"
    and fd: "set (workersInitialized failingSVC) \<subseteq> dom (workers failingSVC)"
    by (simp_all add: cancelingSVC_def failingSVC_def)
  have cw: "workers cancelingSVC ''b'' = Some canceledWorker"
    and fw: "workers failingSVC ''b'' = Some boomWorker"
    by (simp_all add: cancelingSVC_def failingSVC_def)
  have cu: "snd (workerUnit cancelingSVC ''b'' canceledWorker) = Returns (Some ?ce)"
    and fu: "snd (workerUnit failingSVC ''b'' boomWorker) = Returns (Some ?be)"
    by (simp_all add: workerUnit_def recoverWait_def result_def)
  obtain ct cs cr where crun:
    "Run retryTwice [''b'', ''a''] (Some (ErrorReceived ?ce)) cancelingSVC = (ct, cs, cr)"
    by (cases "Run retryTwice [''b'', ''a''] (Some (ErrorReceived ?ce)) cancelingSVC")
  obtain ft fs fr where frun:
    "Run retryTwice [''b'', ''a''] (Some (ErrorReceived ?be)) failingSVC = (ft, fs, fr)"
    by (cases "Run retryTwice [''b'', ''a''] (Some (ErrorReceived ?be)) failingSVC")
  have cs: "cs = cancelingSVC\<lparr>workersInitialized := [''a'', ''b'']\<rparr>"
    using cl canceling_loop crun by (rule Run_state)
  have r: "reached (workers cancelingSVC) (rev (workersInitialized cs)) = [''b'', ''a'']"
    unfolding cs by (simp add: cancelingSVC_def reached_def terminateReturns_def)
  from received_error_decides_shutdown [OF cl canceling_loop cd cw cu crun]
    received_error_decides_shutdown [OF fl failing_loop fd fw fu frun]
  show ?thesis
    using cl fl cd fd cw fw cu fu crun frun r
    by (simp add: canceling_loop failing_loop)
qed

lemma starting_results:
  "initResult retryTwice startingSVC ''a'' = Returns None"
  "initResult retryTwice startingSVC ''b'' = Returns None"
  "initResult retryTwice startingSVC ''c'' = Returns (Some (ErrorString ''no database''))"
  "initResult retryTwice startingSVC ''d'' = Returns None"
  by (simp_all add: initResult_def initStep_def startingSVC_def retryTwice_def result_def Let_def)

theorem failed_init_stops_startup_witness:
  "workersAdded startingSVC = [''a'', ''b''] @ ''c'' # [''d''] \<and>
   initResult retryTwice startingSVC ''a'' = Returns None \<and>
   initResult retryTwice startingSVC ''b'' = Returns None \<and>
   initResult retryTwice startingSVC ''c'' = Returns (Some (ErrorString ''no database'')) \<and>
   initSteps (fst (Run retryTwice [''d'', ''c'', ''b'', ''a''] (Some AllWorkersFinished) startingSVC)) =
     [(''a'', None), (''b'', None), (''c'', Some (ErrorString ''no database''))] \<and>
   runStarts (fst (Run retryTwice [''d'', ''c'', ''b'', ''a''] (Some AllWorkersFinished) startingSVC)) = [] \<and>
   workersInitialized (fst (snd (Run retryTwice [''d'', ''c'', ''b'', ''a''] (Some AllWorkersFinished)
     startingSVC))) = [''a'', ''b''] \<and>
   terminated (fst (Run retryTwice [''d'', ''c'', ''b'', ''a''] (Some AllWorkersFinished) startingSVC)) =
     [''b'', ''a''] \<and>
   snd (snd (Run retryTwice [''d'', ''c'', ''b'', ''a''] (Some AllWorkersFinished) startingSVC)) =
     Returns ()"
proof -
  have added: "workersAdded startingSVC = [''a'', ''b''] @ ''c'' # [''d'']"
    by (simp add: startingSVC_def)
  have pre: "\<forall>n \<in> set [''a'', ''b'']. initResult retryTwice startingSVC n = Returns None"
    by (simp add: starting_results)
  have reg: "set (workersInitialized startingSVC) \<subseteq> dom (workers startingSVC)"
    by (simp add: startingSVC_def)
  have fresh: "workersInitialized startingSVC = []" by (simp add: startingSVC_def)
  have r: "reached (workers startingSVC) (rev [''a'', ''b'']) = [''b'', ''a'']"
    by (simp add: startingSVC_def reached_def terminateReturns_def)
  obtain t s' r where run:
    "Run retryTwice [''d'', ''c'', ''b'', ''a''] (Some AllWorkersFinished) startingSVC = (t, s', r)"
    by (cases "Run retryTwice [''d'', ''c'', ''b'', ''a''] (Some AllWorkersFinished) startingSVC")
  from failed_init_stops_startup [OF added pre starting_results(3) run] reg fresh r
  show ?thesis using run added by (auto simp: starting_results)
qed

theorem initialized_set_is_successful_prefix_witness:
  "distinct (workersAdded startingSVC) \<and>
   initialisedIn (fst (Run retryTwice [''d'', ''c'', ''b'', ''a''] (Some (SignalReceived SIGINT))
     startingSVC)) = [''a'', ''b''] \<and>
   workersInitialized (fst (snd (Run retryTwice [''d'', ''c'', ''b'', ''a'']
     (Some (SignalReceived SIGINT)) startingSVC))) = [''a'', ''b''] \<and>
   prefix [''a'', ''b''] (workersAdded startingSVC) \<and> distinct [''a'', ''b'']"
proof -
  have added: "workersAdded startingSVC = [''a'', ''b'', ''c'', ''d'']"
    and fresh: "workersInitialized startingSVC = []"
    by (simp_all add: startingSVC_def)
  obtain t s' r where run:
    "Run retryTwice [''d'', ''c'', ''b'', ''a''] (Some (SignalReceived SIGINT)) startingSVC = (t, s', r)"
    by (cases "Run retryTwice [''d'', ''c'', ''b'', ''a''] (Some (SignalReceived SIGINT)) startingSVC")
  from initialized_set_is_successful_prefix [OF run]
  show ?thesis using run added fresh by (simp add: starting_results)
qed

end
